theory Spec2Isabelle
  imports Main
begin

section \<open>Strings\<close>

text \<open>
  The two functions of Go's \<^verbatim>\<open>strings\<close> package that \<^verbatim>\<open>updateContainer\<close> calls.
  \<^verbatim>\<open>strings.Split(s, sep)\<close> is taken at a one-character separator (the source splits at
  \<^verbatim>\<open>":"\<close>): it cuts at every occurrence of the separator, so the result of a string with
  \<open>n\<close> separators has \<open>n + 1\<close> parts, and the empty string gives one empty part.
\<close>

primrec strings_Split :: "string \<Rightarrow> char \<Rightarrow> string list" where
  "strings_Split [] sep = [[]]"
| "strings_Split (c # cs) sep =
     (let rest = strings_Split cs sep
      in if c = sep then [] # rest else (c # hd rest) # tl rest)"

definition strings_HasSuffix :: "string \<Rightarrow> string \<Rightarrow> bool" where
  "strings_HasSuffix s suffix \<longleftrightarrow>
     length suffix \<le> length s \<and> drop (length s - length suffix) s = suffix"

definition strings_TrimSuffix :: "string \<Rightarrow> string \<Rightarrow> string" where
  "strings_TrimSuffix s suffix =
     (if strings_HasSuffix s suffix then take (length s - length suffix) s else s)"

section \<open>Data\<close>

text \<open>\<^verbatim>\<open>const latest = "latest"\<close>\<close>

definition latest :: string where
  "latest = ''latest''"

text \<open>
  What \<^verbatim>\<open>updateContainer\<close> returns: \<^verbatim>\<open>nil\<close> is \<open>Inr ()\<close>, an error built by
  \<^verbatim>\<open>_err\<close> is \<open>Inl (Error msg)\<close> with the formatted message, and a run that ends in a Go
  runtime panic (a nil pointer dereference) is \<open>Inl Panic\<close>.
\<close>

datatype error = Error string | Panic

definition err :: "string \<Rightarrow> error" where
  "err msg = Error msg"

text \<open>
  \<^verbatim>\<open>types.Container\<close>, an entry of the container listing. The source reads its fields
  \<^verbatim>\<open>ID\<close> and \<^verbatim>\<open>Image\<close> only.
\<close>

record Container =
  ID :: string
  Image :: string

text \<open>
  The semantic-version package (\<^verbatim>\<open>github.com/Masterminds/semver\<close>) is not part of the
  repository, so its operations are a parameter of the model: \<open>'v\<close> is what a non-nil
  \<^verbatim>\<open>*semver.Version\<close> points to, \<^verbatim>\<open>NewVersion\<close> gives \<open>None\<close> where the package returns
  an error, and the \<^verbatim>\<open>*semver.Version\<close> variables of the source are \<open>'v option\<close>,
  \<open>None\<close> for \<^verbatim>\<open>nil\<close>.
\<close>

record 'v semver =
  NewVersion :: "string \<Rightarrow> 'v option"
  Prerelease :: "'v \<Rightarrow> string"
  Metadata :: "'v \<Rightarrow> string"
  LessThan :: "'v \<Rightarrow> 'v \<Rightarrow> bool"
  String :: "'v \<Rightarrow> string"

text \<open>
  \<^verbatim>\<open>v.String()\<close> on a \<^verbatim>\<open>*semver.Version\<close>: the method formats the fields of the
  version it is called on, so on a nil pointer it is a nil pointer dereference.
\<close>

definition Version_String :: "'v semver \<Rightarrow> 'v option \<Rightarrow> error + string" where
  "Version_String lib p = (case p of None \<Rightarrow> Inl Panic | Some v \<Rightarrow> Inr (String lib v))"

section \<open>The selector\<close>

text \<open>
  Lines 142-149 (and 400-407 of the second version, the same text): the repository and
  the tag of a listed container's image reference.
\<close>

definition imageRepoTag :: "string \<Rightarrow> string \<times> string" where
  "imageRepoTag img =
     (let iParts = strings_Split img CHR '':'';
          cRepo = iParts ! 0;
          cTag = '''';
          cTag = (if length iParts > 1 then iParts ! 1 else cTag);
          cTag = (if cTag = '''' then latest else cTag)
      in (cRepo, cTag))"

text \<open>
  Lines 151-169, first version: the decision for a container of the requested repository.
  \<open>None\<close> is the \<^verbatim>\<open>continue\<close> after a tag that does not parse; otherwise the result is
  \<^verbatim>\<open>upd\<close> with the two version pointers as the branch leaves them.
\<close>

definition decide :: "'v semver \<Rightarrow> string \<Rightarrow> string \<Rightarrow> (bool \<times> 'v option \<times> 'v option) option" where
  "decide lib tag cTag =
     (if cTag = latest then Some (tag = cTag, None, None)
      else (case NewVersion lib cTag of
              None \<Rightarrow> None
            | Some cVer \<Rightarrow>
                (case NewVersion lib tag of
                   None \<Rightarrow> None
                 | Some ver \<Rightarrow>
                     Some (Prerelease lib cVer = Prerelease lib ver \<and>
                           Metadata lib cVer = Metadata lib ver \<and>
                           LessThan lib cVer ver, Some cVer, Some ver))))"

text \<open>
  Line 173, first version: the arguments of the log call
  \<^verbatim>\<open>logrus.Infof("to update %s:%s -> %s", cRepo, cVer.String(), ver.String())\<close>, evaluated
  left to right. The other log calls of the source take strings only and are left out.
\<close>

definition toUpdateLog :: "'v semver \<Rightarrow> string \<Rightarrow> 'v option \<Rightarrow> 'v option \<Rightarrow> error + string" where
  "toUpdateLog lib cRepo cVer ver =
     (case Version_String lib cVer of
        Inl e \<Rightarrow> Inl e
      | Inr s1 \<Rightarrow>
          (case Version_String lib ver of
             Inl e \<Rightarrow> Inl e
           | Inr s2 \<Rightarrow> Inr (''to update '' @ cRepo @ '':'' @ s1 @ '' -> '' @ s2)))"

text \<open>
  One iteration of the loop of lines 140-176, first version, on the pair
  \<open>(toUpdate, containerImages)\<close>.
\<close>

definition selectStep :: "'v semver \<Rightarrow> string \<Rightarrow> string \<Rightarrow> Container \<Rightarrow>
    Container list \<times> string list \<Rightarrow> error + Container list \<times> string list" where
  "selectStep lib repo tag cnt st =
     (case st of (toUpdate, containerImages) \<Rightarrow>
        let containerImages = containerImages @ [Image cnt];
            (cRepo, cTag) = imageRepoTag (Image cnt)
        in if cRepo = repo then
             (case decide lib tag cTag of
                None \<Rightarrow> Inr (toUpdate, containerImages)
              | Some (upd, cVer, ver) \<Rightarrow>
                  if upd then
                    (let toUpdate = toUpdate @ [cnt]
                     in case toUpdateLog lib cRepo cVer ver of
                          Inl e \<Rightarrow> Inl e
                        | Inr msg \<Rightarrow> Inr (toUpdate, containerImages))
                  else Inr (toUpdate, containerImages))
           else Inr (toUpdate, containerImages))"

fun selectLoop :: "'v semver \<Rightarrow> string \<Rightarrow> string \<Rightarrow> Container list \<Rightarrow>
    Container list \<times> string list \<Rightarrow> error + Container list \<times> string list" where
  "selectLoop lib repo tag [] st = Inr st"
| "selectLoop lib repo tag (cnt # containers) st =
     (case selectStep lib repo tag cnt st of
        Inl e \<Rightarrow> Inl e
      | Inr st' \<Rightarrow> selectLoop lib repo tag containers st')"

text \<open>
  The second version of the file (lines 409-425): no \<^verbatim>\<open>continue\<close>, no comparison of the
  prerelease and metadata components, and log calls that take no nil pointer.
\<close>

definition decide2 :: "'v semver \<Rightarrow> string \<Rightarrow> string \<Rightarrow> bool" where
  "decide2 lib tag cTag =
     (if cTag = latest then tag = cTag
      else (case (NewVersion lib cTag, NewVersion lib tag) of
              (Some cVer, Some ver) \<Rightarrow> LessThan lib cVer ver
            | _ \<Rightarrow> False))"

definition selectStep2 :: "'v semver \<Rightarrow> string \<Rightarrow> string \<Rightarrow> Container \<Rightarrow>
    Container list \<times> string list \<Rightarrow> Container list \<times> string list" where
  "selectStep2 lib repo tag cnt st =
     (case st of (toUpdate, containerImages) \<Rightarrow>
        let containerImages = containerImages @ [Image cnt];
            (cRepo, cTag) = imageRepoTag (Image cnt)
        in if cRepo = repo then
             (let upd = decide2 lib tag cTag
              in if upd then (toUpdate @ [cnt], containerImages)
                 else (toUpdate, containerImages))
           else (toUpdate, containerImages))"

fun selectLoop2 :: "'v semver \<Rightarrow> string \<Rightarrow> string \<Rightarrow> Container list \<Rightarrow>
    Container list \<times> string list \<Rightarrow> Container list \<times> string list" where
  "selectLoop2 lib repo tag [] st = st"
| "selectLoop2 lib repo tag (cnt # containers) st =
     selectLoop2 lib repo tag containers (selectStep2 lib repo tag cnt st)"

section \<open>The container runtime\<close>

text \<open>
  The Docker client and the types of its API are not part of the repository. The model
  keeps the fields the source reads and takes everything else as a parameter:
  \<open>'c\<close> stands for the fields of \<^verbatim>\<open>container.Config\<close> other than \<^verbatim>\<open>Image\<close>, \<open>'h\<close> for a
  \<^verbatim>\<open>container.HostConfig\<close>, \<open>'n\<close> for the endpoint map of the network settings. A pointer
  that may be nil is an \<open>option\<close>.
\<close>

record 'c config =
  Config_Image :: string
  Config_rest :: 'c

record 'n networkSettings =
  Networks :: "'n option"

record 'n networkingConfig =
  EndpointsConfig :: 'n

text \<open>\<^verbatim>\<open>types.ContainerJSON\<close>, the result of an inspect, with the fields the source reads.\<close>

record ('h, 'n, 'c) containerJSON =
  JSON_Image :: string
  JSON_Name :: string
  HostConfig :: "'h option"
  Config :: "'c config option"
  NetworkSettings :: "'n networkSettings option"

text \<open>
  The calls of the client, over a state \<open>'w\<close> of the runtime that every call may change.
  An error the client returns is its message; \<^verbatim>\<open>ContainerInspect\<close> returns a value and an
  error side by side, as in Go, because the source reads the value of the second inspect
  without looking at the error. \<^verbatim>\<open>ImagePull\<close> stands for the call together with the draining
  and closing of its stream, whose errors the source drops; the items \<^verbatim>\<open>ImageRemove\<close>
  returns are only logged. \<^verbatim>\<open>ParseNormalizedNamed\<close> is the function of the
  \<^verbatim>\<open>reference\<close> package, with \<open>Inr\<close> the \<^verbatim>\<open>String()\<close> of the parsed name.
\<close>

record ('w, 'h, 'n, 'c) client =
  ContainerList :: "'w \<Rightarrow> (string + Container list) \<times> 'w"
  ParseNormalizedNamed :: "string \<Rightarrow> string + string"
  ImagePull :: "string \<Rightarrow> 'w \<Rightarrow> string option \<times> 'w"
  ContainerInspect :: "string \<Rightarrow> 'w \<Rightarrow> (('h, 'n, 'c) containerJSON \<times> string option) \<times> 'w"
  ContainerRemove :: "string \<Rightarrow> bool \<Rightarrow> 'w \<Rightarrow> string option \<times> 'w"
  ContainerCreate :: "'c config \<Rightarrow> 'h option \<Rightarrow> 'n networkingConfig option \<Rightarrow> string \<Rightarrow> 'w \<Rightarrow>
    (string + string) \<times> 'w"
  ContainerStart :: "string \<Rightarrow> 'w \<Rightarrow> string option \<times> 'w"
  ImageRemove :: "string \<Rightarrow> 'w \<Rightarrow> string option \<times> 'w"

text \<open>
  The calls a run makes, in order, with their arguments and, for an inspect, with what
  the client returned: the second component of the state the model passes along.
\<close>

datatype ('h, 'n, 'c) call =
    ListCall
  | PullCall string
  | InspectCall string "('h, 'n, 'c) containerJSON \<times> string option"
  | RemoveCall string bool
  | CreateCall "'c config" "'h option" "'n networkingConfig option" string
  | StartCall string
  | ImageRemoveCall string

section \<open>The recreator\<close>

text \<open>
  Lines 219-224 (465-470): the network configuration of the replacement, nil unless the
  inspected container has network settings with a non-nil endpoint map.
\<close>

definition networkingConfigOf :: "('h, 'n, 'c) containerJSON \<Rightarrow> 'n networkingConfig option" where
  "networkingConfigOf inspect =
     (case NetworkSettings inspect of
        None \<Rightarrow> None
      | Some ns \<Rightarrow>
          (case Networks ns of
             None \<Rightarrow> None
           | Some nets \<Rightarrow> Some \<lparr>EndpointsConfig = nets\<rparr>))"

text \<open>
  Lines 205-250 (451-496 of the second version, the same text but for the log messages):
  one iteration of the loop over \<^verbatim>\<open>toUpdate\<close>. \<^verbatim>\<open>contConfig\<close> stays nil when the inspected
  \<^verbatim>\<open>Config\<close> is nil, and the assignment to \<^verbatim>\<open>contConfig.Image\<close> then panics.
\<close>

definition recreateOne :: "('w, 'h, 'n, 'c) client \<Rightarrow> string \<Rightarrow> Container \<Rightarrow>
    'w \<times> ('h, 'n, 'c) call list \<Rightarrow> (error + unit) \<times> 'w \<times> ('h, 'n, 'c) call list" where
  "recreateOne cli fullRepo cnt s =
     (case s of (w0, cs0) \<Rightarrow>
     (case ContainerInspect cli (ID cnt) w0 of ((inspect, e1), w1) \<Rightarrow>
     (let cs1 = cs0 @ [InspectCall (ID cnt) (inspect, e1)] in
     (case e1 of
        Some msg \<Rightarrow> (Inl (err (''inspect container '' @ ID cnt @ '' error: '' @ msg)), w1, cs1)
      | None \<Rightarrow>
     (let prevImageId = JSON_Image inspect in
     (case ContainerRemove cli (ID cnt) True w1 of (e2, w2) \<Rightarrow>
     (let cs2 = cs1 @ [RemoveCall (ID cnt) True] in
     (case e2 of
        Some msg \<Rightarrow> (Inl (err (''remove container '' @ ID cnt @ '' error: '' @ msg)), w2, cs2)
      | None \<Rightarrow>
     (case Config inspect of
        None \<Rightarrow> (Inl Panic, w2, cs2)
      | Some inspectConfig \<Rightarrow>
     (let contConfig = inspectConfig\<lparr>Config_Image := strings_TrimSuffix fullRepo ('':'' @ latest)\<rparr>;
          networkingConfig = networkingConfigOf inspect
      in
     (case ContainerCreate cli contConfig (HostConfig inspect) networkingConfig (JSON_Name inspect) w2
      of (created, w3) \<Rightarrow>
     (let cs3 = cs2 @ [CreateCall contConfig (HostConfig inspect) networkingConfig (JSON_Name inspect)] in
     (case created of
        Inl msg \<Rightarrow> (Inl (err (''create new container error: '' @ msg)), w3, cs3)
      | Inr createdID \<Rightarrow>
     (case ContainerStart cli createdID w3 of (e4, w4) \<Rightarrow>
     (let cs4 = cs3 @ [StartCall createdID] in
     (case e4 of
        Some msg \<Rightarrow> (Inl (err (''start new container error: '' @ msg)), w4, cs4)
      | None \<Rightarrow>
     (case ContainerInspect cli createdID w4 of ((inspect', e5), w5) \<Rightarrow>
     (let cs5 = cs4 @ [InspectCall createdID (inspect', e5)] in
      if prevImageId \<noteq> JSON_Image inspect' then
        (case ImageRemove cli prevImageId w5 of (e6, w6) \<Rightarrow>
           (Inr (), w6, cs5 @ [ImageRemoveCall prevImageId]))
      else (Inr (), w5, cs5)))))))))))))))))))"

fun recreateLoop :: "('w, 'h, 'n, 'c) client \<Rightarrow> string \<Rightarrow> Container list \<Rightarrow>
    'w \<times> ('h, 'n, 'c) call list \<Rightarrow> (error + unit) \<times> 'w \<times> ('h, 'n, 'c) call list" where
  "recreateLoop cli fullRepo [] s = (Inr (), s)"
| "recreateLoop cli fullRepo (cnt # toUpdate) s =
     (case recreateOne cli fullRepo cnt s of
        (Inl e, s') \<Rightarrow> (Inl e, s')
      | (Inr u, s') \<Rightarrow> recreateLoop cli fullRepo toUpdate s')"

section \<open>updateContainer\<close>

text \<open>
  Lines 180-255 (430-501 of the second version): what \<^verbatim>\<open>updateContainer\<close> does once the
  selection loop has left \<^verbatim>\<open>toUpdate\<close>.
\<close>

definition pullAndRecreate :: "('w, 'h, 'n, 'c) client \<Rightarrow> string \<Rightarrow> Container list \<Rightarrow>
    'w \<times> ('h, 'n, 'c) call list \<Rightarrow> (error + unit) \<times> 'w \<times> ('h, 'n, 'c) call list" where
  "pullAndRecreate cli fullRepo toUpdate s =
     (case s of (w0, cs0) \<Rightarrow>
      if length toUpdate = 0 then (Inr (), w0, cs0)
      else
       (case ParseNormalizedNamed cli fullRepo of
          Inl msg \<Rightarrow> (Inl (err (''parse container name '' @ fullRepo @ '' error: '' @ msg)), w0, cs0)
        | Inr pn \<Rightarrow>
           (case ImagePull cli pn w0 of (e1, w1) \<Rightarrow>
             (let cs1 = cs0 @ [PullCall pn] in
               (case e1 of
                  Some msg \<Rightarrow> (Inl (err (''pull image '' @ fullRepo @ '' error: '' @ msg)), w1, cs1)
                | None \<Rightarrow> recreateLoop cli fullRepo toUpdate (w1, cs1))))))"

text \<open>Lines 138-255, first version: from the listing the client returned to the end.\<close>

definition updateListed :: "'v semver \<Rightarrow> ('w, 'h, 'n, 'c) client \<Rightarrow> string \<Rightarrow> string \<Rightarrow>
    Container list \<Rightarrow> 'w \<times> ('h, 'n, 'c) call list \<Rightarrow> (error + unit) \<times> 'w \<times> ('h, 'n, 'c) call list" where
  "updateListed lib cli repo tag containers s =
     (case selectLoop lib repo tag containers ([], []) of
        Inl e \<Rightarrow> (Inl e, s)
      | Inr (toUpdate, containerImages) \<Rightarrow>
          pullAndRecreate cli (repo @ '':'' @ tag) toUpdate s)"

text \<open>
  \<^verbatim>\<open>updateContainer\<close>, first version (lines 121-257), run on the state \<open>w\<close> of the runtime:
  the result, the state the run leaves, and the calls it made.
\<close>

definition updateContainer :: "'v semver \<Rightarrow> ('w, 'h, 'n, 'c) client \<Rightarrow> string \<Rightarrow> string \<Rightarrow> 'w \<Rightarrow>
    (error + unit) \<times> 'w \<times> ('h, 'n, 'c) call list" where
  "updateContainer lib cli repo tag w =
     (if repo = '''' \<or> tag = '''' then (Inl (err ''repo and tag must be filled''), w, [])
      else
       (case ContainerList cli w of (listed, w1) \<Rightarrow>
         (case listed of
            Inl msg \<Rightarrow> (Inl (err (''get containers list error: '' @ msg)), w1, [ListCall])
          | Inr containers \<Rightarrow> updateListed lib cli repo tag containers (w1, [ListCall]))))"

text \<open>The second version (lines 379-503), which differs in the selection loop only.\<close>

definition updateListed2 :: "'v semver \<Rightarrow> ('w, 'h, 'n, 'c) client \<Rightarrow> string \<Rightarrow> string \<Rightarrow>
    Container list \<Rightarrow> 'w \<times> ('h, 'n, 'c) call list \<Rightarrow> (error + unit) \<times> 'w \<times> ('h, 'n, 'c) call list" where
  "updateListed2 lib cli repo tag containers s =
     (case selectLoop2 lib repo tag containers ([], []) of
        (toUpdate, containerImages) \<Rightarrow>
          pullAndRecreate cli (repo @ '':'' @ tag) toUpdate s)"

definition updateContainer2 :: "'v semver \<Rightarrow> ('w, 'h, 'n, 'c) client \<Rightarrow> string \<Rightarrow> string \<Rightarrow> 'w \<Rightarrow>
    (error + unit) \<times> 'w \<times> ('h, 'n, 'c) call list" where
  "updateContainer2 lib cli repo tag w =
     (if repo = '''' \<or> tag = '''' then (Inl (err ''repo and tag must be filled''), w, [])
      else
       (case ContainerList cli w of (listed, w1) \<Rightarrow>
         (case listed of
            Inl msg \<Rightarrow> (Inl (err (''get containers list error: '' @ msg)), w1, [ListCall])
          | Inr containers \<Rightarrow> updateListed2 lib cli repo tag containers (w1, [ListCall]))))"

section \<open>A semantic-version package\<close>

text \<open>
  An instance of the parameter \<open>'v semver\<close>, for running the model on concrete tags. It
  follows release 1.5.0 of \<^verbatim>\<open>github.com/Masterminds/semver\<close>: \<^verbatim>\<open>NewVersion\<close> matches
  \<^verbatim>\<open>^v?([0-9]+)(\.[0-9]+)?(\.[0-9]+)?(-([0-9A-Za-z\-]+(\.[0-9A-Za-z\-]+)*))?(\+([0-9A-Za-z\-]+(\.[0-9A-Za-z\-]+)*))?$\<close>
  and reads the three numbers as 64-bit signed integers; \<^verbatim>\<open>Compare\<close> orders by major, minor
  and patch, then a version without prerelease above one with, then the prereleases part
  by part. The theorems below are stated for every package, some of them under facts
  of the package that they name; only their instances at concrete inputs use this one.
\<close>

record Version =
  major :: int
  minor :: int
  patch :: int
  pre :: string
  metadata :: string
  original :: string

definition isDigit :: "char \<Rightarrow> bool" where
  "isDigit c \<longleftrightarrow> c \<in> set ''0123456789''"

definition isIdentChar :: "char \<Rightarrow> bool" where
  "isIdentChar c \<longleftrightarrow>
     c \<in> set ''0123456789ABCDEFGHIJKLMNOPQRSTUVWXYZabcdefghijklmnopqrstuvwxyz-''"

definition digitsValue :: "string \<Rightarrow> int" where
  "digitsValue ds = foldl (\<lambda>n c. 10 * n + (of_char c - 48)) 0 ds"

text \<open>\<^verbatim>\<open>strconv.ParseInt(s, 10, 64)\<close> and \<^verbatim>\<open>strconv.ParseUint(s, 10, 64)\<close> on unsigned digits.\<close>

definition ParseInt :: "string \<Rightarrow> int option" where
  "ParseInt s =
     (if s \<noteq> [] \<and> list_all isDigit s \<and> digitsValue s < 2 ^ 63 then Some (digitsValue s) else None)"

definition ParseUint :: "string \<Rightarrow> int option" where
  "ParseUint s =
     (if s \<noteq> [] \<and> list_all isDigit s \<and> digitsValue s < 2 ^ 64 then Some (digitsValue s) else None)"

text \<open>The group \<^verbatim>\<open>(\.[0-9]+)?\<close>: the digits it matched and the rest of the input.\<close>

definition optSegment :: "string \<Rightarrow> (string \<times> string) option" where
  "optSegment r =
     (case r of
        [] \<Rightarrow> Some ([], r)
      | c # r' \<Rightarrow>
          if c = CHR ''.'' then
            (if takeWhile isDigit r' = [] then None
             else Some (takeWhile isDigit r', dropWhile isDigit r'))
          else Some ([], r))"

text \<open>\<^verbatim>\<open>[0-9A-Za-z\-]+(\.[0-9A-Za-z\-]+)*\<close>\<close>

definition validIdents :: "string \<Rightarrow> bool" where
  "validIdents s \<longleftrightarrow>
     list_all (\<lambda>p. p \<noteq> [] \<and> list_all isIdentChar p) (strings_Split s CHR ''.'')"

text \<open>The prerelease and metadata groups, up to the end of the input.\<close>

definition preAndMetadata :: "string \<Rightarrow> (string \<times> string) option" where
  "preAndMetadata r =
     (case r of
        [] \<Rightarrow> Some ([], [])
      | c # r' \<Rightarrow>
          if c = CHR ''-'' then
            (let p = takeWhile (\<lambda>x. x \<noteq> CHR ''+'') r';
                 q = dropWhile (\<lambda>x. x \<noteq> CHR ''+'') r'
             in if validIdents p then
                  (case q of
                     [] \<Rightarrow> Some (p, [])
                   | c2 # m \<Rightarrow> if validIdents m then Some (p, m) else None)
                else None)
          else if c = CHR ''+'' then (if validIdents r' then Some ([], r') else None)
          else None)"

definition semver_NewVersion :: "string \<Rightarrow> Version option" where
  "semver_NewVersion v =
     (let s = (case v of [] \<Rightarrow> v | c # r \<Rightarrow> if c = CHR ''v'' then r else v);
          m1 = takeWhile isDigit s
      in if m1 = [] then None
         else
          (case optSegment (dropWhile isDigit s) of
             None \<Rightarrow> None
           | Some (m2, r2) \<Rightarrow>
              (case optSegment r2 of
                 None \<Rightarrow> None
               | Some (m3, r3) \<Rightarrow>
                  (case preAndMetadata r3 of
                     None \<Rightarrow> None
                   | Some (p, md) \<Rightarrow>
                      (case (ParseInt m1,
                             if m2 = [] then Some 0 else ParseInt m2,
                             if m3 = [] then Some 0 else ParseInt m3) of
                         (Some ma, Some mi, Some pa) \<Rightarrow>
                           Some \<lparr>major = ma, minor = mi, patch = pa, pre = p, metadata = md,
                                 original = v\<rparr>
                       | _ \<Rightarrow> None)))))"

fun string_less :: "string \<Rightarrow> string \<Rightarrow> bool" where
  "string_less [] [] = False"
| "string_less [] (y # ys) = True"
| "string_less (x # xs) [] = False"
| "string_less (x # xs) (y # ys) =
     ((of_char x :: nat) < of_char y \<or> (x = y \<and> string_less xs ys))"

definition compareSegment :: "int \<Rightarrow> int \<Rightarrow> int" where
  "compareSegment v o' = (if v < o' then - 1 else if v > o' then 1 else 0)"

definition comparePrePart :: "string \<Rightarrow> string \<Rightarrow> int" where
  "comparePrePart s o' =
     (if s = o' then 0
      else if s = [] then - 1
      else if o' = [] then 1
      else (case (ParseUint o', ParseUint s) of
              (None, None) \<Rightarrow> if string_less o' s then 1 else - 1
            | (None, Some si) \<Rightarrow> - 1
            | (Some oi, None) \<Rightarrow> 1
            | (Some oi, Some si) \<Rightarrow> if si > oi then 1 else - 1))"

text \<open>
  The loop of \<^verbatim>\<open>comparePrerelease\<close> over the parts of the two prereleases, the shorter
  list padded with empty parts.
\<close>

fun compareParts :: "string list \<Rightarrow> string list \<Rightarrow> int" where
  "compareParts [] [] = 0"
| "compareParts (s # ss) [] =
     (if comparePrePart s [] \<noteq> 0 then comparePrePart s [] else compareParts ss [])"
| "compareParts [] (p # ps) =
     (if comparePrePart [] p \<noteq> 0 then comparePrePart [] p else compareParts [] ps)"
| "compareParts (s # ss) (p # ps) =
     (if comparePrePart s p \<noteq> 0 then comparePrePart s p else compareParts ss ps)"

definition comparePrerelease :: "string \<Rightarrow> string \<Rightarrow> int" where
  "comparePrerelease v o' =
     compareParts (strings_Split v CHR ''.'') (strings_Split o' CHR ''.'')"

definition Compare :: "Version \<Rightarrow> Version \<Rightarrow> int" where
  "Compare v o' =
     (if compareSegment (major v) (major o') \<noteq> 0 then compareSegment (major v) (major o')
      else if compareSegment (minor v) (minor o') \<noteq> 0 then compareSegment (minor v) (minor o')
      else if compareSegment (patch v) (patch o') \<noteq> 0 then compareSegment (patch v) (patch o')
      else if pre v = [] \<and> pre o' = [] then 0
      else if pre v = [] then 1
      else if pre o' = [] then - 1
      else comparePrerelease (pre v) (pre o'))"

function showNat :: "nat \<Rightarrow> string" where
  "showNat n = (if n < 10 then [char_of (48 + n)] else showNat (n div 10) @ [char_of (48 + n mod 10)])"
  by pat_completeness auto
termination
  by (relation "measure id") auto

definition Version_format :: "Version \<Rightarrow> string" where
  "Version_format v =
     showNat (nat (major v)) @ ''.'' @ showNat (nat (minor v)) @ ''.'' @ showNat (nat (patch v)) @
     (if pre v \<noteq> [] then ''-'' @ pre v else []) @
     (if metadata v \<noteq> [] then ''+'' @ metadata v else [])"

definition Masterminds :: "Version semver" where
  "Masterminds =
     \<lparr>NewVersion = semver_NewVersion, Prerelease = pre, Metadata = metadata,
      LessThan = (\<lambda>v o'. Compare v o' < 0), String = Version_format\<rparr>"

section \<open>A container runtime\<close>

text \<open>
  An instance of the parameter \<open>client\<close>, for running the model on concrete container
  states: a runtime that holds its containers in a list, each with its listing entry and
  what an inspect of it returns. A created container is listed under the image of the
  configuration it was created with; an inspect of an unknown id fails and returns the
  zero value. The flags of the state make the pull fail and make a started container
  exit and disappear at once.
\<close>

record runtime =
  rt_containers :: "(Container \<times> (string, string, string) containerJSON) list"
  rt_created :: nat
  pullError :: "string option"
  exitOnStart :: bool

definition zeroJSON :: "(string, string, string) containerJSON" where
  "zeroJSON =
     \<lparr>JSON_Image = '''', JSON_Name = '''', HostConfig = None, Config = None, NetworkSettings = None\<rparr>"

definition rt_ContainerInspect :: "string \<Rightarrow> runtime \<Rightarrow>
    ((string, string, string) containerJSON \<times> string option) \<times> runtime" where
  "rt_ContainerInspect cid w =
     (case filter (\<lambda>c. ID (fst c) = cid) (rt_containers w) of
        [] \<Rightarrow> ((zeroJSON, Some (''No such container: '' @ cid)), w)
      | c # cs \<Rightarrow> ((snd c, None), w))"

definition rt_ContainerRemove :: "string \<Rightarrow> bool \<Rightarrow> runtime \<Rightarrow> string option \<times> runtime" where
  "rt_ContainerRemove cid force w =
     (if cid \<in> set (map (\<lambda>c. ID (fst c)) (rt_containers w)) then
        (None, w\<lparr>rt_containers := filter (\<lambda>c. ID (fst c) \<noteq> cid) (rt_containers w)\<rparr>)
      else (Some (''No such container: '' @ cid), w))"

definition rt_ContainerCreate :: "string config \<Rightarrow> string option \<Rightarrow> string networkingConfig option \<Rightarrow>
    string \<Rightarrow> runtime \<Rightarrow> (string + string) \<times> runtime" where
  "rt_ContainerCreate cfg host net name w =
     (let newID = ''new'' @ replicate (rt_created w) CHR ''+'';
          listing = \<lparr>ID = newID, Image = Config_Image cfg\<rparr>;
          json = \<lparr>JSON_Image = ''sha256:'' @ Config_Image cfg, JSON_Name = name,
                  HostConfig = host, Config = Some cfg,
                  NetworkSettings =
                    (case net of
                       None \<Rightarrow> None
                     | Some n \<Rightarrow> Some \<lparr>Networks = Some (EndpointsConfig n)\<rparr>)\<rparr>
      in (Inr newID, w\<lparr>rt_containers := rt_containers w @ [(listing, json)], rt_created := rt_created w + 1\<rparr>))"

definition rt_ContainerStart :: "string \<Rightarrow> runtime \<Rightarrow> string option \<times> runtime" where
  "rt_ContainerStart cid w =
     (None,
      if exitOnStart w then w\<lparr>rt_containers := filter (\<lambda>c. ID (fst c) \<noteq> cid) (rt_containers w)\<rparr>
      else w)"

definition docker :: "(runtime, string, string, string) client" where
  "docker =
     \<lparr>ContainerList = (\<lambda>w. (Inr (map fst (rt_containers w)), w)),
      ParseNormalizedNamed = (\<lambda>s. Inr (''docker.io/library/'' @ s)),
      ImagePull = (\<lambda>pn w. (pullError w, w)),
      ContainerInspect = rt_ContainerInspect,
      ContainerRemove = rt_ContainerRemove,
      ContainerCreate = rt_ContainerCreate,
      ContainerStart = rt_ContainerStart,
      ImageRemove = (\<lambda>iid w. (None, w))\<rparr>"

text \<open>A running container of image \<open>img\<close>, as the listing and an inspect show it.\<close>

definition running :: "string \<Rightarrow> string \<Rightarrow> string \<Rightarrow> Container \<times> (string, string, string) containerJSON" where
  "running cid name img =
     (\<lparr>ID = cid, Image = img\<rparr>,
      \<lparr>JSON_Image = ''sha256:'' @ img, JSON_Name = name, HostConfig = Some ''host'',
       Config = Some \<lparr>Config_Image = img, Config_rest = ''env''\<rparr>,
       NetworkSettings = Some \<lparr>Networks = Some ''bridge''\<rparr>\<rparr>)"

section \<open>Reading the selection loops\<close>

text \<open>
  Two predicates on a listed container, used to state what the loops compute: the first
  version's loop panics at a container of the requested repository whose tag and the
  target tag are both \<open>latest\<close>; otherwise a container is appended to \<^verbatim>\<open>toUpdate\<close> when
  it is of the requested repository and \<^verbatim>\<open>upd\<close> is true.
\<close>

definition panics :: "string \<Rightarrow> string \<Rightarrow> Container \<Rightarrow> bool" where
  "panics repo tag cnt \<longleftrightarrow> imageRepoTag (Image cnt) = (repo, latest) \<and> tag = latest"

definition selects :: "'v semver \<Rightarrow> string \<Rightarrow> string \<Rightarrow> Container \<Rightarrow> bool" where
  "selects lib repo tag cnt \<longleftrightarrow>
     fst (imageRepoTag (Image cnt)) = repo \<and>
     (case decide lib tag (snd (imageRepoTag (Image cnt))) of
        None \<Rightarrow> False
      | Some (upd, cVer, ver) \<Rightarrow> upd)"

definition selects2 :: "'v semver \<Rightarrow> string \<Rightarrow> string \<Rightarrow> Container \<Rightarrow> bool" where
  "selects2 lib repo tag cnt \<longleftrightarrow>
     fst (imageRepoTag (Image cnt)) = repo \<and> decide2 lib tag (snd (imageRepoTag (Image cnt)))"

text \<open>
  The split as the specification words it, for comparison with \<open>imageRepoTag\<close>: the
  reference is cut at its last \<^verbatim>\<open>:\<close>, and the tag is \<open>latest\<close> when there is none.
\<close>

definition spec_splitLastColon :: "string \<Rightarrow> string \<times> string" where
  "spec_splitLastColon img =
     (if CHR '':'' \<in> set img then
        (rev (tl (dropWhile (\<lambda>c. c \<noteq> CHR '':'') (rev img))),
         rev (takeWhile (\<lambda>c. c \<noteq> CHR '':'') (rev img)))
      else (img, latest))"

text \<open>
  A reading of the calls of a run, for claim C6: every create call stands right after the
  successful inspect and the forced remove of one container, and it passes the inspected
  configuration with the image set to \<open>img\<close>, the inspected host configuration, the
  network configuration built from the inspected settings, and the inspected name.
\<close>

definition replacements :: "string \<Rightarrow> ('h, 'n, 'c) call list \<Rightarrow> bool" where
  "replacements img cs \<longleftrightarrow>
     (\<forall>before cfg h n name rest.
        cs = before @ CreateCall cfg h n name # rest \<longrightarrow>
        (\<exists>before' cid inspect c0.
           before = before' @ [InspectCall cid (inspect, None), RemoveCall cid True] \<and>
           Config inspect = Some c0 \<and>
           cfg = c0\<lparr>Config_Image := img\<rparr> \<and>
           h = HostConfig inspect \<and>
           n = networkingConfigOf inspect \<and>
           name = JSON_Name inspect))"

section \<open>Lemmas\<close>

lemma strings_Split_not_Nil: "strings_Split s sep \<noteq> []"
  by (induction s) (simp_all add: Let_def)

lemma selectStep_eq:
  "selectStep lib repo tag cnt (toUpdate, imgs) =
     (if panics repo tag cnt then Inl Panic
      else Inr (if selects lib repo tag cnt then toUpdate @ [cnt] else toUpdate,
                imgs @ [Image cnt]))"
proof (cases "imageRepoTag (Image cnt)")
  case (Pair cRepo cTag)
  show ?thesis
  proof (cases "cRepo = repo")
    case False
    with Pair show ?thesis
      by (simp add: selectStep_def panics_def selects_def)
  next
    case True
    show ?thesis
    proof (cases "cTag = latest")
      case True
      with Pair \<open>cRepo = repo\<close> show ?thesis
        by (simp add: selectStep_def panics_def selects_def decide_def toUpdateLog_def
            Version_String_def)
    next
      case False
      with Pair \<open>cRepo = repo\<close> show ?thesis
        by (simp add: selectStep_def panics_def selects_def decide_def toUpdateLog_def
            Version_String_def split: option.splits)
    qed
  qed
qed

lemma selectLoop_eq:
  "selectLoop lib repo tag cs (toUpdate, imgs) =
     (if \<exists>c \<in> set cs. panics repo tag c then Inl Panic
      else Inr (toUpdate @ filter (selects lib repo tag) cs, imgs @ map Image cs))"
  by (induction cs arbitrary: toUpdate imgs) (simp_all add: selectStep_eq)

lemma selectStep2_eq:
  "selectStep2 lib repo tag cnt (toUpdate, imgs) =
     (if selects2 lib repo tag cnt then toUpdate @ [cnt] else toUpdate, imgs @ [Image cnt])"
  by (cases "imageRepoTag (Image cnt)") (simp add: selectStep2_def selects2_def Let_def)

lemma selectLoop2_eq:
  "selectLoop2 lib repo tag cs (toUpdate, imgs) =
     (toUpdate @ filter (selects2 lib repo tag) cs, imgs @ map Image cs)"
  by (induction cs arbitrary: toUpdate imgs) (simp_all add: selectStep2_eq)

lemma strings_Split_no_sep: "sep \<notin> set s \<Longrightarrow> strings_Split s sep = [s]"
  by (induction s) (auto simp: Let_def)

lemma strings_Split_append:
  "sep \<notin> set r \<Longrightarrow> strings_Split (r @ sep # t) sep = r # strings_Split t sep"
  by (induction r) (auto simp: Let_def)

lemma strings_Split_hd_no_sep: "sep \<notin> set (hd (strings_Split s sep))"
  by (induction s) (simp_all add: Let_def)

lemma imageRepoTag_repo_no_colon: "CHR '':'' \<notin> set (fst (imageRepoTag img))"
  using strings_Split_hd_no_sep [of "CHR '':''" img] strings_Split_not_Nil [of img "CHR '':''"]
  by (simp add: imageRepoTag_def Let_def hd_conv_nth)

lemma imageRepoTag_repo_tag:
  "CHR '':'' \<notin> set repo \<Longrightarrow> CHR '':'' \<notin> set tag \<Longrightarrow> tag \<noteq> [] \<Longrightarrow>
   imageRepoTag (repo @ '':'' @ tag) = (repo, tag)"
  by (simp add: imageRepoTag_def strings_Split_append strings_Split_no_sep)

lemma imageRepoTag_bare:
  "CHR '':'' \<notin> set repo \<Longrightarrow> imageRepoTag repo = (repo, latest)"
  by (simp add: imageRepoTag_def strings_Split_no_sep)

lemma takeWhile_until: "\<forall>x \<in> set xs. P x \<Longrightarrow> \<not> P y \<Longrightarrow> takeWhile P (xs @ y # ys) = xs"
  by (induction xs) auto

lemma dropWhile_until: "\<forall>x \<in> set xs. P x \<Longrightarrow> \<not> P y \<Longrightarrow> dropWhile P (xs @ y # ys) = y # ys"
  by (induction xs) auto

lemma spec_splitLastColon_repo_tag:
  assumes "CHR '':'' \<notin> set tag"
  shows "spec_splitLastColon (repo @ '':'' @ tag) = (repo, tag)"
proof -
  have all: "\<forall>x \<in> set (rev tag). x \<noteq> CHR '':''"
    using assms by auto
  have "takeWhile (\<lambda>c. c \<noteq> CHR '':'') (rev tag @ CHR '':'' # rev repo) = rev tag"
    using all by (rule takeWhile_until) simp
  moreover have "dropWhile (\<lambda>c. c \<noteq> CHR '':'') (rev tag @ CHR '':'' # rev repo) = CHR '':'' # rev repo"
    using all by (rule dropWhile_until) simp
  ultimately show ?thesis
    by (simp add: spec_splitLastColon_def)
qed

lemma strings_TrimSuffix_latest:
  "strings_TrimSuffix (repo @ '':'' @ latest) ('':'' @ latest) = repo"
  by (simp add: strings_TrimSuffix_def strings_HasSuffix_def)

lemma same_after_last:
  assumes "xs @ y # ys = xs' @ y # ys'" and "y \<notin> set ys" and "y \<notin> set ys'"
  shows "ys = ys'"
proof -
  have "takeWhile (\<lambda>c. c \<noteq> y) (rev ys @ y # rev xs) = rev ys"
    using assms(2) by (intro takeWhile_until) auto
  moreover have "takeWhile (\<lambda>c. c \<noteq> y) (rev ys' @ y # rev xs') = rev ys'"
    using assms(3) by (intro takeWhile_until) auto
  moreover have "rev ys @ y # rev xs = rev ys' @ y # rev xs'"
    using arg_cong [OF assms(1), of rev] by simp
  ultimately show ?thesis
    by simp
qed

lemma strings_TrimSuffix_other:
  assumes "CHR '':'' \<notin> set tag" "tag \<noteq> latest"
  shows "strings_TrimSuffix (repo @ '':'' @ tag) ('':'' @ latest) = repo @ '':'' @ tag"
proof -
  have "\<not> strings_HasSuffix (repo @ '':'' @ tag) ('':'' @ latest)"
  proof
    assume "strings_HasSuffix (repo @ '':'' @ tag) ('':'' @ latest)"
    then obtain p where p: "repo @ '':'' @ tag = p @ '':'' @ latest"
      unfolding strings_HasSuffix_def by (metis append_take_drop_id)
    have "CHR '':'' \<notin> set latest" by (simp add: latest_def)
    with p assms(1) have "tag = latest"
      using same_after_last [of repo "CHR '':''" tag p latest] by simp
    with assms(2) show False by simp
  qed
  then show ?thesis by (simp add: strings_TrimSuffix_def)
qed

section \<open>Evaluation\<close>

text \<open>The definitions to unfold when a run is evaluated on concrete inputs.\<close>

lemmas semver_eval = Masterminds_def semver_NewVersion_def optSegment_def preAndMetadata_def
  ParseInt_def ParseUint_def isDigit_def isIdentChar_def digitsValue_def validIdents_def
  Compare_def compareSegment_def comparePrerelease_def comparePrePart_def latest_def

lemmas docker_eval = docker_def rt_ContainerInspect_def rt_ContainerRemove_def
  rt_ContainerCreate_def rt_ContainerStart_def running_def zeroJSON_def

lemmas run_eval = updateContainer_def updateListed_def updateContainer2_def updateListed2_def
  pullAndRecreate_def recreateOne_def networkingConfigOf_def strings_TrimSuffix_def
  strings_HasSuffix_def err_def selectLoop_eq selectLoop2_eq panics_def selects_def selects2_def
  decide_def decide2_def imageRepoTag_def

section \<open>Facts of the semantic-version package\<close>

text \<open>
  What the theorems below assume of a semantic-version package holds of the instance:
  \<open>latest\<close> does not parse, a string that parses holds no \<^verbatim>\<open>:\<close>, and no version is less
  than itself.
\<close>

lemma set_strings_Split:
  "c \<in> set s \<Longrightarrow> c = sep \<or> (\<exists>p \<in> set (strings_Split s sep). c \<in> set p)"
proof (induction s)
  case Nil
  then show ?case by simp
next
  case (Cons a s)
  obtain p ps where rest: "strings_Split s sep = p # ps"
    using strings_Split_not_Nil [of s sep] by (cases "strings_Split s sep") auto
  show ?case
  proof (cases "c = a")
    case True
    then show ?thesis using rest by (auto simp add: Let_def)
  next
    case False
    with Cons.prems have "c \<in> set s" by simp
    from Cons.IH [OF this] rest show ?thesis
      by (auto simp add: Let_def)
  qed
qed

lemma validIdents_chars:
  assumes "validIdents s" and "c \<in> set s"
  shows "isIdentChar c \<or> c = CHR ''.''"
  using assms set_strings_Split [of c s "CHR ''.''"]
  by (auto simp add: validIdents_def list_all_iff)

lemma colon_not_ident: "\<not> isIdentChar CHR '':''" "\<not> isDigit CHR '':''"
  by (simp_all add: isIdentChar_def isDigit_def)

lemma validIdents_no_colon: "validIdents s \<Longrightarrow> CHR '':'' \<notin> set s"
  using validIdents_chars [of s "CHR '':''"] colon_not_ident by auto

lemma takeWhile_isDigit_no_colon: "CHR '':'' \<notin> set (takeWhile isDigit s)"
  using colon_not_ident(2) by (metis set_takeWhileD)

lemma colon_in_dropWhile:
  "CHR '':'' \<in> set s \<Longrightarrow> CHR '':'' \<in> set (dropWhile isDigit s)"
  using takeWhile_isDigit_no_colon [of s] takeWhile_dropWhile_id [of isDigit s]
  by (metis Un_iff set_append)

lemma optSegment_colon:
  assumes "optSegment r = Some (m, r')" and "CHR '':'' \<in> set r"
  shows "CHR '':'' \<in> set r'"
  using assms colon_in_dropWhile
  by (auto simp add: optSegment_def split: list.splits if_splits)

lemma preAndMetadata_no_colon:
  assumes "preAndMetadata r = Some (p, md)"
  shows "CHR '':'' \<notin> set r"
proof (cases r)
  case Nil
  then show ?thesis by simp
next
  case (Cons c r')
  show ?thesis
  proof (cases "c = CHR ''-''")
    case True
    let ?p = "takeWhile (\<lambda>x. x \<noteq> CHR ''+'') r'"
    let ?q = "dropWhile (\<lambda>x. x \<noteq> CHR ''+'') r'"
    from assms Cons True have vp: "validIdents ?p"
      by (auto simp add: preAndMetadata_def Let_def split: if_splits)
    have vq: "CHR '':'' \<notin> set ?q"
    proof (cases ?q)
      case Nil
      then show ?thesis by (simp del: dropWhile_eq_Nil_conv)
    next
      case (Cons c2 m)
      with assms \<open>r = c # r'\<close> True vp have "validIdents m"
        by (auto simp add: preAndMetadata_def Let_def split: if_splits)
      moreover have "c2 = CHR ''+''"
        using Cons by (metis (mono_tags, lifting) hd_dropWhile list.sel(1) list.distinct(1))
      ultimately show ?thesis
        using Cons validIdents_no_colon by auto
    qed
    have "set r' = set ?p \<union> set ?q"
      by (metis set_append takeWhile_dropWhile_id)
    with vp vq validIdents_no_colon Cons True show ?thesis
      by auto
  next
    case False
    with assms Cons show ?thesis
      using validIdents_no_colon by (auto simp add: preAndMetadata_def split: if_splits)
  qed
qed

lemma semver_NewVersion_no_colon:
  assumes "semver_NewVersion s = Some v"
  shows "CHR '':'' \<notin> set s"
proof
  assume colon: "CHR '':'' \<in> set s"
  define s' where "s' = (case s of [] \<Rightarrow> s | c # r \<Rightarrow> if c = CHR ''v'' then r else s)"
  have colon': "CHR '':'' \<in> set s'"
    using colon by (auto simp add: s'_def split: list.splits)
  from assms obtain m2 r2 m3 r3 p md where
    seg1: "optSegment (dropWhile isDigit s') = Some (m2, r2)" and
    seg2: "optSegment r2 = Some (m3, r3)" and
    tail: "preAndMetadata r3 = Some (p, md)"
    unfolding semver_NewVersion_def s'_def [symmetric] Let_def
    by (auto split: if_splits option.splits prod.splits)
  from colon' have "CHR '':'' \<in> set (dropWhile isDigit s')"
    by (rule colon_in_dropWhile)
  with seg1 have "CHR '':'' \<in> set r2" by (rule optSegment_colon)
  with seg2 have "CHR '':'' \<in> set r3" by (rule optSegment_colon)
  with preAndMetadata_no_colon [OF tail] show False by simp
qed

lemma Masterminds_no_colon: "NewVersion Masterminds s = Some v \<Longrightarrow> CHR '':'' \<notin> set s"
  using semver_NewVersion_no_colon by (simp add: Masterminds_def)

lemma compareParts_refl: "compareParts ps ps = 0"
  by (induction ps) (simp_all add: comparePrePart_def)

lemma Compare_refl: "Compare v v = 0"
  by (simp add: Compare_def compareSegment_def comparePrerelease_def compareParts_refl)

lemma Masterminds_irreflexive: "\<not> LessThan Masterminds v v"
  by (simp add: Masterminds_def Compare_refl)

lemma Masterminds_latest: "NewVersion Masterminds latest = None"
  by (simp add: semver_eval)

lemma Masterminds_facts:
  shows "\<forall>v. \<not> LessThan Masterminds v v"
    and "\<forall>s v. NewVersion Masterminds s = Some v \<longrightarrow> CHR '':'' \<notin> set s"
  using Masterminds_irreflexive Masterminds_no_colon by blast+

section \<open>The calls of a run\<close>

lemma replacements_no_create:
  assumes "\<And>cfg h n name. CreateCall cfg h n name \<notin> set cs"
  shows "replacements img cs"
  unfolding replacements_def using assms by (metis in_set_conv_decomp)

lemma replacements_snoc:
  assumes "replacements img cs" and "\<And>cfg h n name. x \<noteq> CreateCall cfg h n name"
  shows "replacements img (cs @ [x])"
  unfolding replacements_def
proof (intro allI impI)
  fix before cfg h n name rest
  assume eq: "cs @ [x] = before @ CreateCall cfg h n name # rest"
  show "\<exists>before' cid inspect c0.
      before = before' @ [InspectCall cid (inspect, None), RemoveCall cid True] \<and>
      Config inspect = Some c0 \<and> cfg = c0\<lparr>Config_Image := img\<rparr> \<and> h = HostConfig inspect \<and>
      n = networkingConfigOf inspect \<and> name = JSON_Name inspect"
  proof (cases rest rule: rev_cases)
    case Nil
    with eq have "x = CreateCall cfg h n name" by simp
    with assms(2) show ?thesis by blast
  next
    case (snoc rest' y)
    with eq have "cs = before @ CreateCall cfg h n name # rest'" by simp
    with assms(1) show ?thesis unfolding replacements_def by blast
  qed
qed

lemma replacements_create:
  assumes "replacements img (cs @ [InspectCall cid (inspect, None), RemoveCall cid True])"
    and "Config inspect = Some c0"
  shows "replacements img
     (cs @ [InspectCall cid (inspect, None), RemoveCall cid True] @
      [CreateCall (c0\<lparr>Config_Image := img\<rparr>) (HostConfig inspect) (networkingConfigOf inspect)
         (JSON_Name inspect)])"
  unfolding replacements_def
proof (intro allI impI)
  fix before cfg h n name rest
  assume eq: "cs @ [InspectCall cid (inspect, None), RemoveCall cid True] @
      [CreateCall (c0\<lparr>Config_Image := img\<rparr>) (HostConfig inspect) (networkingConfigOf inspect)
         (JSON_Name inspect)] = before @ CreateCall cfg h n name # rest"
  show "\<exists>before' cid inspect c0.
      before = before' @ [InspectCall cid (inspect, None), RemoveCall cid True] \<and>
      Config inspect = Some c0 \<and> cfg = c0\<lparr>Config_Image := img\<rparr> \<and> h = HostConfig inspect \<and>
      n = networkingConfigOf inspect \<and> name = JSON_Name inspect"
  proof (cases rest rule: rev_cases)
    case Nil
    with eq have "before = cs @ [InspectCall cid (inspect, None), RemoveCall cid True]"
      and "CreateCall cfg h n name =
        CreateCall (c0\<lparr>Config_Image := img\<rparr>) (HostConfig inspect) (networkingConfigOf inspect)
          (JSON_Name inspect)"
      by simp_all
    with assms(2) show ?thesis by blast
  next
    case (snoc rest' y)
    with eq have "cs @ [InspectCall cid (inspect, None), RemoveCall cid True] =
        before @ CreateCall cfg h n name # rest'"
      by simp
    with assms(1) show ?thesis unfolding replacements_def by blast
  qed
qed

lemma recreateOne_replacements:
  assumes "recreateOne cli fullRepo cnt (w, cs) = (r, w', cs')"
    and "replacements (strings_TrimSuffix fullRepo ('':'' @ latest)) cs"
  shows "replacements (strings_TrimSuffix fullRepo ('':'' @ latest)) cs'"
proof -
  let ?img = "strings_TrimSuffix fullRepo ('':'' @ latest)"
  obtain inspect e1 w1 where i1: "ContainerInspect cli (ID cnt) w = ((inspect, e1), w1)"
    by (metis prod.exhaust)
  let ?cs1 = "cs @ [InspectCall (ID cnt) (inspect, e1)]"
  have r1: "replacements ?img ?cs1"
    using assms(2) by (rule replacements_snoc) simp
  show ?thesis
  proof (cases e1)
    case (Some msg)
    with assms(1) i1 r1 show ?thesis
      by (simp add: recreateOne_def)
  next
    case None
    obtain e2 w2 where i2: "ContainerRemove cli (ID cnt) True w1 = (e2, w2)"
      by (metis prod.exhaust)
    let ?cs2 = "?cs1 @ [RemoveCall (ID cnt) True]"
    have r2: "replacements ?img ?cs2"
      using r1 by (rule replacements_snoc) simp
    show ?thesis
    proof (cases e2)
      case (Some msg)
      with assms(1) i1 i2 None r2 show ?thesis
        by (simp add: recreateOne_def)
    next
      case e2: None
      show ?thesis
      proof (cases "Config inspect")
        case None
        with assms(1) i1 i2 \<open>e1 = None\<close> e2 r2 show ?thesis
          by (simp add: recreateOne_def)
      next
        case (Some c0)
        let ?create = "CreateCall (c0\<lparr>Config_Image := ?img\<rparr>) (HostConfig inspect)
            (networkingConfigOf inspect) (JSON_Name inspect)"
        let ?cs3 = "?cs2 @ [?create]"
        have r3: "replacements ?img ?cs3"
          using replacements_create [of ?img cs "ID cnt" inspect c0] r2 Some \<open>e1 = None\<close>
          by simp
        obtain created w3 where i3: "ContainerCreate cli (c0\<lparr>Config_Image := ?img\<rparr>)
            (HostConfig inspect) (networkingConfigOf inspect) (JSON_Name inspect) w2 = (created, w3)"
          by (metis prod.exhaust)
        show ?thesis
        proof (cases created)
          case (Inl msg)
          with assms(1) i1 i2 i3 \<open>e1 = None\<close> e2 Some r3 show ?thesis
            by (simp add: recreateOne_def)
        next
          case (Inr createdID)
          obtain e4 w4 where i4: "ContainerStart cli createdID w3 = (e4, w4)"
            by (metis prod.exhaust)
          let ?cs4 = "?cs3 @ [StartCall createdID]"
          have r4: "replacements ?img ?cs4"
            using r3 by (rule replacements_snoc) simp
          show ?thesis
          proof (cases e4)
            case (Some msg)
            with assms(1) i1 i2 i3 i4 \<open>e1 = None\<close> e2 \<open>Config inspect = Some c0\<close> Inr r4
            show ?thesis
              by (simp add: recreateOne_def)
          next
            case e4: None
            obtain inspect' e5 w5 where i5: "ContainerInspect cli createdID w4 = ((inspect', e5), w5)"
              by (metis prod.exhaust)
            let ?cs5 = "?cs4 @ [InspectCall createdID (inspect', e5)]"
            have r5: "replacements ?img ?cs5"
              using r4 by (rule replacements_snoc) simp
            have r6: "replacements ?img (?cs5 @ [ImageRemoveCall (JSON_Image inspect)])"
              using r5 by (rule replacements_snoc) simp
            from assms(1) i1 i2 i3 i4 i5 \<open>e1 = None\<close> e2 \<open>Config inspect = Some c0\<close> Inr e4
            have "cs' = ?cs5 \<or> cs' = ?cs5 @ [ImageRemoveCall (JSON_Image inspect)]"
              by (auto simp add: recreateOne_def Let_def split: prod.splits if_splits)
            with r5 r6 show ?thesis by auto
          qed
        qed
      qed
    qed
  qed
qed

lemma recreateLoop_replacements:
  assumes "recreateLoop cli fullRepo toUpdate (w, cs) = (r, w', cs')"
    and "replacements (strings_TrimSuffix fullRepo ('':'' @ latest)) cs"
  shows "replacements (strings_TrimSuffix fullRepo ('':'' @ latest)) cs'"
  using assms
proof (induction toUpdate arbitrary: w cs)
  case Nil
  then show ?case by simp
next
  case (Cons cnt toUpdate)
  obtain r1 w1 cs1 where one: "recreateOne cli fullRepo cnt (w, cs) = (r1, w1, cs1)"
    by (metis prod.exhaust)
  from one Cons.prems(2) have r1: "replacements (strings_TrimSuffix fullRepo ('':'' @ latest)) cs1"
    by (rule recreateOne_replacements)
  show ?case
  proof (cases r1)
    case (Inl e)
    with Cons.prems(1) one r1 show ?thesis by simp
  next
    case (Inr u)
    with Cons.prems(1) one have "recreateLoop cli fullRepo toUpdate (w1, cs1) = (r, w', cs')"
      by simp
    from Cons.IH [OF this r1] show ?thesis .
  qed
qed

lemma pullAndRecreate_replacements:
  assumes "pullAndRecreate cli fullRepo toUpdate (w, [ListCall]) = (r, w', cs')"
  shows "replacements (strings_TrimSuffix fullRepo ('':'' @ latest)) cs'"
proof -
  let ?img = "strings_TrimSuffix fullRepo ('':'' @ latest)"
  have r0: "replacements ?img ([ListCall] :: ('b, 'c, 'd) call list)"
    by (rule replacements_no_create) simp
  have r1: "replacements ?img ([ListCall, PullCall pn] :: ('b, 'c, 'd) call list)" for pn
    by (rule replacements_no_create) simp
  show ?thesis
    using assms r0 r1 recreateLoop_replacements [of cli fullRepo toUpdate _ "[ListCall, PullCall _]"]
    by (auto simp add: pullAndRecreate_def Let_def split: if_splits sum.splits prod.splits
        option.splits)
qed

lemma pullAndRecreate_create_selected:
  assumes "pullAndRecreate cli fullRepo toUpdate (w, [ListCall]) = (r, w', cs')"
    and "CreateCall cfg h n name \<in> set cs'"
  shows "toUpdate \<noteq> []"
  using assms by (auto simp add: pullAndRecreate_def)

lemma TrimSuffix_image:
  assumes "tag = latest \<or> CHR '':'' \<notin> set tag"
  shows "strings_TrimSuffix (repo @ '':'' @ tag) ('':'' @ latest) =
     (if tag = latest then repo else repo @ '':'' @ tag)"
  using assms strings_TrimSuffix_latest [of repo] strings_TrimSuffix_other [of tag repo]
  by auto

lemma updateContainer_after_list:
  assumes "updateContainer lib cli repo tag w = (r, w', cs)" and "cs \<noteq> []" and "cs \<noteq> [ListCall]"
  shows "\<exists>containers w1 toUpdate imgs.
           ContainerList cli w = (Inr containers, w1) \<and>
           selectLoop lib repo tag containers ([], []) = Inr (toUpdate, imgs) \<and>
           pullAndRecreate cli (repo @ '':'' @ tag) toUpdate (w1, [ListCall]) = (r, w', cs)"
  using assms
  by (auto simp add: updateContainer_def updateListed_def split: if_splits prod.splits sum.splits)

lemma updateContainer2_after_list:
  assumes "updateContainer2 lib cli repo tag w = (r, w', cs)" and "cs \<noteq> []" and "cs \<noteq> [ListCall]"
  shows "\<exists>containers w1.
           ContainerList cli w = (Inr containers, w1) \<and>
           pullAndRecreate cli (repo @ '':'' @ tag)
             (fst (selectLoop2 lib repo tag containers ([], []))) (w1, [ListCall]) = (r, w', cs)"
  using assms
  by (auto simp add: updateContainer2_def updateListed2_def split: if_splits prod.splits sum.splits)

lemma selected_target_parses:
  assumes "selectLoop lib repo tag containers ([], []) = Inr (toUpdate, imgs)" and "toUpdate \<noteq> []"
  shows "\<exists>ver. NewVersion lib tag = Some ver"
proof -
  from assms(1) have no_panic: "\<forall>c \<in> set containers. \<not> panics repo tag c"
    and toUpdate: "toUpdate = filter (selects lib repo tag) containers"
    by (auto simp add: selectLoop_eq split: if_splits)
  from assms(2) toUpdate obtain c where c: "c \<in> set containers" "selects lib repo tag c"
    by (metis filter_False)
  from c(1) no_panic have "\<not> panics repo tag c" by simp
  with c(2) show ?thesis
    by (cases "imageRepoTag (Image c)")
      (auto simp add: selects_def panics_def decide_def split: option.splits if_splits)
qed

lemma selected2_target_parses:
  assumes "fst (selectLoop2 lib repo tag containers ([], [])) \<noteq> []"
  shows "tag = latest \<or> (\<exists>ver. NewVersion lib tag = Some ver)"
proof -
  from assms obtain c where "c \<in> set containers" "selects2 lib repo tag c"
    by (metis filter_False fst_conv selectLoop2_eq append_Nil)
  then show ?thesis
    by (auto simp add: selects2_def decide2_def split: option.splits if_splits)
qed

lemma run_replacements:
  assumes lib: "\<And>s v. NewVersion lib s = Some v \<Longrightarrow> CHR '':'' \<notin> set s"
    and run: "updateContainer lib cli repo tag w = (r, w', cs) \<or>
              updateContainer2 lib cli repo tag w = (r, w', cs)"
    and create: "CreateCall cfg h n name \<in> set cs"
  shows "replacements (if tag = latest then repo else repo @ '':'' @ tag) cs"
proof -
  from create have cs: "cs \<noteq> []" "cs \<noteq> [ListCall]"
    by auto
  from run have "\<exists>toUpdate w1.
      pullAndRecreate cli (repo @ '':'' @ tag) toUpdate (w1, [ListCall]) = (r, w', cs) \<and>
      (tag = latest \<or> CHR '':'' \<notin> set tag)"
  proof
    assume "updateContainer lib cli repo tag w = (r, w', cs)"
    from updateContainer_after_list [OF this cs] obtain containers w1 toUpdate imgs where
      sel: "selectLoop lib repo tag containers ([], []) = Inr (toUpdate, imgs)" and
      rest: "pullAndRecreate cli (repo @ '':'' @ tag) toUpdate (w1, [ListCall]) = (r, w', cs)"
      by blast
    from rest create have "toUpdate \<noteq> []"
      by (rule pullAndRecreate_create_selected)
    with sel have "\<exists>ver. NewVersion lib tag = Some ver"
      by (rule selected_target_parses)
    with lib rest show ?thesis by blast
  next
    assume "updateContainer2 lib cli repo tag w = (r, w', cs)"
    from updateContainer2_after_list [OF this cs] obtain containers w1 where
      rest: "pullAndRecreate cli (repo @ '':'' @ tag)
        (fst (selectLoop2 lib repo tag containers ([], []))) (w1, [ListCall]) = (r, w', cs)"
      by blast
    from rest create have "fst (selectLoop2 lib repo tag containers ([], [])) \<noteq> []"
      by (rule pullAndRecreate_create_selected)
    then have "tag = latest \<or> (\<exists>ver. NewVersion lib tag = Some ver)"
      by (rule selected2_target_parses)
    with lib rest show ?thesis by blast
  qed
  then obtain toUpdate w1 where
    rest: "pullAndRecreate cli (repo @ '':'' @ tag) toUpdate (w1, [ListCall]) = (r, w', cs)" and
    tag: "tag = latest \<or> CHR '':'' \<notin> set tag"
    by blast
  from pullAndRecreate_replacements [OF rest] TrimSuffix_image [OF tag, of repo]
  show ?thesis by simp
qed

lemma created_image:
  assumes "\<And>s v. NewVersion lib s = Some v \<Longrightarrow> CHR '':'' \<notin> set s"
    and "updateContainer lib cli repo tag w = (r, w', cs) \<or>
         updateContainer2 lib cli repo tag w = (r, w', cs)"
    and "CreateCall cfg h n name \<in> set cs"
  shows "Config_Image cfg = (if tag = latest then repo else repo @ '':'' @ tag)"
proof -
  from assms have "replacements (if tag = latest then repo else repo @ '':'' @ tag) cs"
    by (rule run_replacements)
  moreover from assms(3) obtain before rest where "cs = before @ CreateCall cfg h n name # rest"
    by (auto dest: split_list)
  ultimately obtain c0 :: "'e config" where
    "cfg = c0\<lparr>Config_Image := (if tag = latest then repo else repo @ '':'' @ tag)\<rparr>"
    unfolding replacements_def by blast
  then show ?thesis by simp
qed

lemma new_container_skipped:
  assumes "NewVersion lib tag = Some ver" and "\<not> LessThan lib ver ver"
    and "tag \<noteq> latest" and "tag \<noteq> ''''"
    and "CHR '':'' \<notin> set tag" and "CHR '':'' \<notin> set repo"
    and "Image c = repo @ '':'' @ tag"
  shows "\<not> panics repo tag c" and "\<not> selects lib repo tag c" and "\<not> selects2 lib repo tag c"
proof -
  have split: "imageRepoTag (Image c) = (repo, tag)"
    using assms(7) imageRepoTag_repo_tag [OF assms(6,5,4)] by simp
  show "\<not> panics repo tag c" and "\<not> selects lib repo tag c" and "\<not> selects2 lib repo tag c"
    using split assms(1-3)
    by (simp_all add: panics_def selects_def selects2_def decide_def decide2_def)
qed

lemma second_run_first_version:
  assumes lib1: "NewVersion lib latest = None"
    and lib2: "\<And>v. \<not> LessThan lib v v"
    and lib3: "\<And>s v. NewVersion lib s = Some v \<Longrightarrow> CHR '':'' \<notin> set s"
    and list1: "ContainerList cli w = (Inr containers, w1)"
    and list2: "ContainerList cli w' = (Inr containers', w'')"
    and run1: "updateContainer lib cli repo tag w = (Inr (), w', cs)"
    and sel1: "selectLoop lib repo tag containers ([], []) = Inr (toUpdate, imgs)"
    and after: "\<forall>c \<in> set containers'.
        (c \<in> set containers \<and> c \<notin> set toUpdate) \<or>
        (\<exists>cfg h n name. CreateCall cfg h n name \<in> set cs \<and> Image c = Config_Image cfg)"
  shows "selectLoop lib repo tag containers' ([], []) = Inr ([], map Image containers') \<and>
         updateContainer lib cli repo tag w' = (Inr (), w'', [ListCall])"
proof -
  from run1 have filled: "repo \<noteq> []" "tag \<noteq> []"
    by (auto simp add: updateContainer_def split: if_splits)
  from sel1 have no_panic: "\<forall>c \<in> set containers. \<not> panics repo tag c"
    and toUpdate: "toUpdate = filter (selects lib repo tag) containers"
    by (auto simp add: selectLoop_eq split: if_splits)
  have skip: "\<not> panics repo tag c \<and> \<not> selects lib repo tag c" if c: "c \<in> set containers'" for c
  proof -
    from after c consider
      (old) "c \<in> set containers" "c \<notin> set toUpdate"
      | (new) cfg h n name where "CreateCall cfg h n name \<in> set cs" "Image c = Config_Image cfg"
      by blast
    then show ?thesis
    proof cases
      case old
      with no_panic toUpdate show ?thesis by simp
    next
      case new
      from new(1) have cs: "cs \<noteq> []" "cs \<noteq> [ListCall]"
        by auto
      from updateContainer_after_list [OF run1 cs] list1 sel1
      have rest: "pullAndRecreate cli (repo @ '':'' @ tag) toUpdate (w1, [ListCall]) = (Inr (), w', cs)"
        by auto
      from rest new(1) have sel: "toUpdate \<noteq> []"
        by (rule pullAndRecreate_create_selected)
      with sel1 obtain ver where ver: "NewVersion lib tag = Some ver"
        using selected_target_parses by blast
      with lib1 have tag: "tag \<noteq> latest" by auto
      from sel toUpdate obtain c0 where "selects lib repo tag c0"
        by (metis filter_False)
      then have "fst (imageRepoTag (Image c0)) = repo"
        by (simp add: selects_def)
      then have repo: "CHR '':'' \<notin> set repo"
        using imageRepoTag_repo_no_colon [of "Image c0"] by simp
      have "Config_Image cfg = (if tag = latest then repo else repo @ '':'' @ tag)"
        using lib3 disjI1 [OF run1] new(1) by (rule created_image)
      with new(2) tag have "Image c = repo @ '':'' @ tag"
        by simp
      with new_container_skipped [OF ver lib2 tag filled(2) lib3 [OF ver] repo] show ?thesis
        by simp
    qed
  qed
  then have sel2: "selectLoop lib repo tag containers' ([], []) = Inr ([], map Image containers')"
    by (simp add: selectLoop_eq)
  moreover have "updateContainer lib cli repo tag w' = (Inr (), w'', [ListCall])"
    using filled list2 sel2
    by (simp add: updateContainer_def updateListed_def pullAndRecreate_def)
  ultimately show ?thesis by simp
qed

lemma second_run_second_version:
  assumes lib2: "\<And>v. \<not> LessThan lib v v"
    and lib3: "\<And>s v. NewVersion lib s = Some v \<Longrightarrow> CHR '':'' \<notin> set s"
    and list1: "ContainerList cli w = (Inr containers, w1)"
    and list2: "ContainerList cli w' = (Inr containers', w'')"
    and tag: "tag \<noteq> latest"
    and run1: "updateContainer2 lib cli repo tag w = (Inr (), w', cs)"
    and after: "\<forall>c \<in> set containers'.
        (c \<in> set containers \<and> c \<notin> set (fst (selectLoop2 lib repo tag containers ([], [])))) \<or>
        (\<exists>cfg h n name. CreateCall cfg h n name \<in> set cs \<and> Image c = Config_Image cfg)"
  shows "fst (selectLoop2 lib repo tag containers' ([], [])) = [] \<and>
         updateContainer2 lib cli repo tag w' = (Inr (), w'', [ListCall])"
proof -
  from run1 have filled: "repo \<noteq> []" "tag \<noteq> []"
    by (auto simp add: updateContainer2_def split: if_splits)
  have skip: "\<not> selects2 lib repo tag c" if c: "c \<in> set containers'" for c
  proof -
    from after c consider
      (old) "c \<in> set containers" "c \<notin> set (fst (selectLoop2 lib repo tag containers ([], [])))"
      | (new) cfg h n name where "CreateCall cfg h n name \<in> set cs" "Image c = Config_Image cfg"
      by blast
    then show ?thesis
    proof cases
      case old
      then show ?thesis by (simp add: selectLoop2_eq)
    next
      case new
      from new(1) have cs: "cs \<noteq> []" "cs \<noteq> [ListCall]"
        by auto
      from updateContainer2_after_list [OF run1 cs] list1
      have rest: "pullAndRecreate cli (repo @ '':'' @ tag)
          (fst (selectLoop2 lib repo tag containers ([], []))) (w1, [ListCall]) = (Inr (), w', cs)"
        by auto
      from rest new(1) have sel: "fst (selectLoop2 lib repo tag containers ([], [])) \<noteq> []"
        by (rule pullAndRecreate_create_selected)
      with tag obtain ver where ver: "NewVersion lib tag = Some ver"
        using selected2_target_parses by blast
      from sel obtain c0 where "selects2 lib repo tag c0"
        by (metis filter_False fst_conv selectLoop2_eq append_Nil)
      then have "fst (imageRepoTag (Image c0)) = repo"
        by (simp add: selects2_def)
      then have repo: "CHR '':'' \<notin> set repo"
        using imageRepoTag_repo_no_colon [of "Image c0"] by simp
      have "Config_Image cfg = (if tag = latest then repo else repo @ '':'' @ tag)"
        using lib3 disjI2 [OF run1] new(1) by (rule created_image)
      with new(2) tag have "Image c = repo @ '':'' @ tag"
        by simp
      with new_container_skipped [OF ver lib2 tag filled(2) lib3 [OF ver] repo] show ?thesis
        by simp
    qed
  qed
  then have sel2: "fst (selectLoop2 lib repo tag containers' ([], [])) = []"
    by (simp add: selectLoop2_eq)
  moreover have "updateContainer2 lib cli repo tag w' = (Inr (), w'', [ListCall])"
    using filled list2 sel2
    by (auto simp add: updateContainer2_def updateListed2_def pullAndRecreate_def split: prod.splits)
  ultimately show ?thesis by simp
qed

section \<open>The selection rule\<close>

text \<open>
  The rule in the terms of the code: \<open>c\<close> is a listed container for which the selector
  reads the requested repository and a tag \<open>cTag\<close>, and \<open>cTag\<close> and the target tag both
  parse.
\<close>

lemma selection_of_parsed_tags:
  assumes "NewVersion lib latest = None"
    and "c \<in> set containers"
    and "imageRepoTag (Image c) = (repo, cTag)"
    and "NewVersion lib cTag = Some cVer"
    and "NewVersion lib tag = Some ver"
  shows "(\<exists>toUpdate imgs.
            selectLoop lib repo tag containers ([], []) = Inr (toUpdate, imgs) \<and>
            (c \<in> set toUpdate \<longleftrightarrow>
               Prerelease lib cVer = Prerelease lib ver \<and>
               Metadata lib cVer = Metadata lib ver \<and>
               LessThan lib cVer ver)) \<and>
         (c \<in> set (fst (selectLoop2 lib repo tag containers ([], []))) \<longleftrightarrow>
            LessThan lib cVer ver)"
proof -
  from assms have cTag: "cTag \<noteq> latest" and tag: "tag \<noteq> latest"
    by auto
  from tag have no_panic: "\<not> (\<exists>c \<in> set containers. panics repo tag c)"
    by (simp add: panics_def)
  have sel: "selects lib repo tag c \<longleftrightarrow>
      Prerelease lib cVer = Prerelease lib ver \<and> Metadata lib cVer = Metadata lib ver \<and>
      LessThan lib cVer ver"
    using assms(3-5) cTag by (simp add: selects_def decide_def)
  have sel2: "selects2 lib repo tag c \<longleftrightarrow> LessThan lib cVer ver"
    using assms(3-5) cTag by (simp add: selects2_def decide2_def)
  show ?thesis
    using no_panic sel sel2 assms(2) by (simp add: selectLoop_eq selectLoop2_eq)
qed

text \<open>
  Claim C1, as amended. Let \<open>c\<close> be a listed container whose image reference is
  \<open>repo:cTag\<close> with one \<^verbatim>\<open>:\<close> only and a tag that is not empty, \<open>repo\<close> the requested
  repository, and let \<open>cTag\<close> and the target tag both parse, \<open>latest\<close> not being a semantic
  version. In the first version of \<^verbatim>\<open>updateContainer\<close> the selection loop completes, and
  \<open>c\<close> is in \<^verbatim>\<open>toUpdate\<close> if and only if the prerelease and the metadata of the two
  versions are equal and the current version is less than the target. In the second
  version \<open>c\<close> is in \<^verbatim>\<open>toUpdate\<close> if and only if the current version is less than the
  target: prerelease and metadata are not compared there.
\<close>

theorem selected_iff_same_channel_and_newer:
  assumes "NewVersion lib latest = None"
    and "c \<in> set containers"
    and "Image c = repo @ '':'' @ cTag"
    and "CHR '':'' \<notin> set repo"
    and "CHR '':'' \<notin> set cTag"
    and "cTag \<noteq> ''''"
    and "NewVersion lib cTag = Some cVer"
    and "NewVersion lib tag = Some ver"
  shows "(\<exists>toUpdate imgs.
            selectLoop lib repo tag containers ([], []) = Inr (toUpdate, imgs) \<and>
            (c \<in> set toUpdate \<longleftrightarrow>
               Prerelease lib cVer = Prerelease lib ver \<and>
               Metadata lib cVer = Metadata lib ver \<and>
               LessThan lib cVer ver)) \<and>
         (c \<in> set (fst (selectLoop2 lib repo tag containers ([], []))) \<longleftrightarrow>
            LessThan lib cVer ver)"
proof -
  have "imageRepoTag (Image c) = (repo, cTag)"
    using assms(3) imageRepoTag_repo_tag [OF assms(4-6)] by simp
  with assms(1,2) show ?thesis
    using assms(7,8) by (rule selection_of_parsed_tags)
qed

text \<open>
  An instance: \<^verbatim>\<open>app:1.2.0\<close> beside \<^verbatim>\<open>app:1.3.0-beta+build1\<close>, target \<^verbatim>\<open>1.3.0\<close>.
\<close>

theorem selected_iff_same_channel_and_newer_witness:
  "NewVersion Masterminds latest = None \<and>
   NewVersion Masterminds ''1.2.0'' =
     Some \<lparr>major = 1, minor = 2, patch = 0, pre = [], metadata = [], original = ''1.2.0''\<rparr> \<and>
   NewVersion Masterminds ''1.3.0'' =
     Some \<lparr>major = 1, minor = 3, patch = 0, pre = [], metadata = [], original = ''1.3.0''\<rparr> \<and>
   (\<exists>toUpdate imgs.
      selectLoop Masterminds ''app'' ''1.3.0''
        [\<lparr>ID = ''c1'', Image = ''app:1.2.0''\<rparr>, \<lparr>ID = ''c2'', Image = ''app:1.3.0-beta+build1''\<rparr>]
        ([], []) = Inr (toUpdate, imgs) \<and>
      \<lparr>ID = ''c1'', Image = ''app:1.2.0''\<rparr> \<in> set toUpdate) \<and>
   \<lparr>ID = ''c1'', Image = ''app:1.2.0''\<rparr> \<in> set (fst (selectLoop2 Masterminds ''app'' ''1.3.0''
        [\<lparr>ID = ''c1'', Image = ''app:1.2.0''\<rparr>, \<lparr>ID = ''c2'', Image = ''app:1.3.0-beta+build1''\<rparr>]
        ([], [])))"
proof -
  let ?c = "\<lparr>ID = ''c1'', Image = ''app:1.2.0''\<rparr>"
  let ?cs = "[?c, \<lparr>ID = ''c2'', Image = ''app:1.3.0-beta+build1''\<rparr>]"
  let ?cVer = "\<lparr>major = 1, minor = 2, patch = 0, pre = [], metadata = [], original = ''1.2.0''\<rparr>"
  let ?ver = "\<lparr>major = 1, minor = 3, patch = 0, pre = [], metadata = [], original = ''1.3.0''\<rparr>"
  have h1: "NewVersion Masterminds latest = None"
    by (simp add: semver_eval)
  have h2: "?c \<in> set ?cs"
    by simp
  have h3: "Image ?c = ''app'' @ '':'' @ ''1.2.0''"
    by simp
  have h4: "CHR '':'' \<notin> set ''app''" and h5: "CHR '':'' \<notin> set ''1.2.0''" and h6: "''1.2.0'' \<noteq> ''''"
    by simp_all
  have h7: "NewVersion Masterminds ''1.2.0'' = Some ?cVer"
    by (simp add: semver_eval)
  have h8: "NewVersion Masterminds ''1.3.0'' = Some ?ver"
    by (simp add: semver_eval)
  have less: "LessThan Masterminds ?cVer ?ver"
    and same: "Prerelease Masterminds ?cVer = Prerelease Masterminds ?ver"
      "Metadata Masterminds ?cVer = Metadata Masterminds ?ver"
    by (simp_all add: semver_eval)
  from selected_iff_same_channel_and_newer [OF h1 h2 h3 h4 h5 h6 h7 h8] less same h1 h7 h8
  show ?thesis
    by simp
qed

text \<open>
  The claim as stated fails on the second version: a container on \<^verbatim>\<open>app:1.2.0-beta\<close> is
  selected for the target \<^verbatim>\<open>1.3.0\<close>, although the prereleases \<^verbatim>\<open>beta\<close> and the empty one
  differ.
\<close>

theorem second_version_selects_across_prerelease:
  "NewVersion Masterminds ''1.2.0-beta'' =
     Some \<lparr>major = 1, minor = 2, patch = 0, pre = ''beta'', metadata = [],
           original = ''1.2.0-beta''\<rparr> \<and>
   NewVersion Masterminds ''1.3.0'' =
     Some \<lparr>major = 1, minor = 3, patch = 0, pre = [], metadata = [], original = ''1.3.0''\<rparr> \<and>
   imageRepoTag ''app:1.2.0-beta'' = (''app'', ''1.2.0-beta'') \<and>
   spec_splitLastColon ''app:1.2.0-beta'' = (''app'', ''1.2.0-beta'') \<and>
   selectLoop2 Masterminds ''app'' ''1.3.0'' [\<lparr>ID = ''c1'', Image = ''app:1.2.0-beta''\<rparr>] ([], []) =
     ([\<lparr>ID = ''c1'', Image = ''app:1.2.0-beta''\<rparr>], [''app:1.2.0-beta''])"
  by (simp add: selectStep2_def decide2_def imageRepoTag_def spec_splitLastColon_def semver_eval)

section \<open>The split of the image reference\<close>

text \<open>
  Claim C2 says that the reference is cut at its last \<^verbatim>\<open>:\<close>. The code cuts at every
  \<^verbatim>\<open>:\<close> and keeps the first two parts: for a reference with a registry port the
  repository is what stands before the first \<^verbatim>\<open>:\<close> and the tag what stands between the
  first and the second, where the split of the claim gives the repository with its
  registry and the tag after the last \<^verbatim>\<open>:\<close>.
\<close>

theorem imageRepoTag_cuts_at_first_colon:
  "imageRepoTag ''registry:5000/app:1.2'' = (''registry'', ''5000/app'') \<and>
   spec_splitLastColon ''registry:5000/app:1.2'' = (''registry:5000/app'', ''1.2'')"
  by (simp add: imageRepoTag_def spec_splitLastColon_def)

text \<open>
  The two splits agree on a reference with one \<^verbatim>\<open>:\<close> and a tag that is not empty, and on
  a reference with none.
\<close>

lemma splits_agree_one_colon:
  assumes "CHR '':'' \<notin> set repo" and "CHR '':'' \<notin> set tag" and "tag \<noteq> ''''"
  shows "imageRepoTag (repo @ '':'' @ tag) = spec_splitLastColon (repo @ '':'' @ tag)"
  using imageRepoTag_repo_tag [OF assms] spec_splitLastColon_repo_tag [OF assms(2), of repo]
  by simp

lemma splits_agree_no_colon:
  assumes "CHR '':'' \<notin> set img"
  shows "imageRepoTag img = spec_splitLastColon img"
  using assms by (simp add: imageRepoTag_bare spec_splitLastColon_def)

text \<open>
  With a registry port in the requested repository no container is ever selected, in
  either version: the selector's repository never holds a \<^verbatim>\<open>:\<close>.
\<close>

lemma repository_with_colon_selects_nothing:
  assumes "CHR '':'' \<in> set repo"
  shows "selectLoop lib repo tag containers ([], []) = Inr ([], map Image containers)"
    and "selectLoop2 lib repo tag containers ([], []) = ([], map Image containers)"
proof -
  have other: "fst (imageRepoTag (Image c)) \<noteq> repo" for c :: Container
    using assms imageRepoTag_repo_no_colon [of "Image c"] by auto
  have "\<not> panics repo tag c" "\<not> selects lib repo tag c" "\<not> selects2 lib repo tag c"
    for c :: Container
    using other [of c] by (auto simp add: panics_def selects_def selects2_def)
  then show "selectLoop lib repo tag containers ([], []) = Inr ([], map Image containers)"
    and "selectLoop2 lib repo tag containers ([], []) = ([], map Image containers)"
    by (simp_all add: selectLoop_eq selectLoop2_eq)
qed

section \<open>Containers that track latest\<close>

text \<open>
  What the two versions decide for a container whose tag is \<open>latest\<close>, and for a pinned
  container when the target is \<open>latest\<close>.
\<close>

lemma latest_rule_decision:
  "decide lib tag latest = Some (tag = latest, None, None)"
  "decide2 lib tag latest = (tag = latest)"
  by (simp_all add: decide_def decide2_def)

lemma pinned_not_selected_by_latest:
  assumes "NewVersion lib latest = None" and "snd (imageRepoTag (Image c)) \<noteq> latest"
  shows "\<not> selects lib repo latest c" and "\<not> selects2 lib repo latest c"
  using assms by (simp_all add: selects_def selects2_def decide_def decide2_def split: option.splits)

lemma latest_rule_second_version:
  assumes "c \<in> set containers" and "imageRepoTag (Image c) = (repo, latest)"
  shows "c \<in> set (fst (selectLoop2 lib repo tag containers ([], []))) \<longleftrightarrow> tag = latest"
  using assms by (simp add: selectLoop2_eq selects2_def decide2_def)

lemma latest_rule_first_version:
  assumes "c \<in> set containers" and "imageRepoTag (Image c) = (repo, latest)"
  shows "selectLoop lib repo tag containers ([], []) =
     (if tag = latest then Inl Panic
      else Inr (filter (selects lib repo tag) containers, map Image containers))"
    and "tag \<noteq> latest \<Longrightarrow> \<not> selects lib repo tag c"
  using assms by (auto simp add: selectLoop_eq panics_def selects_def decide_def)

text \<open>
  Claim C3 says that a container whose tag is \<open>latest\<close> is selected when the target is
  \<open>latest\<close>. In the first version the selection loop does not survive such a container:
  with \<^verbatim>\<open>app:latest\<close> and \<^verbatim>\<open>app\<close> listed and the target \<open>latest\<close> it panics at the first
  of them, for every semantic-version package, and no selection is left. The second
  version selects both.
\<close>

theorem latest_containers_first_version_panics:
  "selectLoop lib ''app'' ''latest''
     [\<lparr>ID = ''c1'', Image = ''app:latest''\<rparr>, \<lparr>ID = ''c2'', Image = ''app''\<rparr>] ([], []) = Inl Panic \<and>
   selectLoop2 lib ''app'' ''latest''
     [\<lparr>ID = ''c1'', Image = ''app:latest''\<rparr>, \<lparr>ID = ''c2'', Image = ''app''\<rparr>] ([], []) =
     ([\<lparr>ID = ''c1'', Image = ''app:latest''\<rparr>, \<lparr>ID = ''c2'', Image = ''app''\<rparr>],
      [''app:latest'', ''app''])"
  by (simp add: selectLoop_eq selectLoop2_eq panics_def selects2_def decide2_def imageRepoTag_def
      latest_def)

text \<open>
  Claim C4 says that the log call of line 173 is safe when a \<open>latest\<close> container is
  selected for the target \<open>latest\<close>. On that path \<^verbatim>\<open>cVer\<close> and \<^verbatim>\<open>ver\<close> are nil, the call
  evaluates \<^verbatim>\<open>cVer.String()\<close>, and the run ends in a panic after the listing, before any
  pull: here with one container of image \<^verbatim>\<open>db\<close> and the request \<^verbatim>\<open>(db, latest)\<close>.
\<close>

theorem latest_selection_log_dereferences_nil:
  "decide lib ''latest'' latest = Some (True, None, None) \<and>
   toUpdateLog lib ''db'' None None = Inl Panic \<and>
   updateContainer lib docker ''db'' ''latest''
     \<lparr>rt_containers = [running ''c1'' ''/db'' ''db''], rt_created = 0, pullError = None,
      exitOnStart = False\<rparr> =
     (Inl Panic,
      \<lparr>rt_containers = [running ''c1'' ''/db'' ''db''], rt_created = 0, pullError = None,
       exitOnStart = False\<rparr>,
      [ListCall])"
  by (simp add: updateContainer_def updateListed_def selectLoop_eq panics_def imageRepoTag_def
      decide_def toUpdateLog_def Version_String_def latest_def docker_eval)

section \<open>Running the same update again\<close>

text \<open>
  Claim C5, as amended. Let a run of \<^verbatim>\<open>updateContainer\<close> return nil, and let the listing
  the runtime gives after it hold only containers of the first listing that the run did
  not select and containers listed under the image of a configuration the run created
  a container with. Then the next run with the same request selects no container and
  makes no call but the listing: in the first version for every target tag, in the
  second version for every target tag other than \<open>latest\<close>. Of the semantic-version
  package the theorem assumes that \<open>latest\<close> does not parse, that a string that parses
  holds no \<^verbatim>\<open>:\<close>, and that no version is less than itself.
\<close>

theorem second_run_selects_nothing:
  assumes "NewVersion lib latest = None"
    and "\<forall>v. \<not> LessThan lib v v"
    and "\<forall>s v. NewVersion lib s = Some v \<longrightarrow> CHR '':'' \<notin> set s"
    and "ContainerList cli w = (Inr containers, w1)"
    and "ContainerList cli w' = (Inr containers', w'')"
  shows "(updateContainer lib cli repo tag w = (Inr (), w', cs) \<and>
          selectLoop lib repo tag containers ([], []) = Inr (toUpdate, imgs) \<and>
          (\<forall>c \<in> set containers'.
             (c \<in> set containers \<and> c \<notin> set toUpdate) \<or>
             (\<exists>cfg h n name. CreateCall cfg h n name \<in> set cs \<and> Image c = Config_Image cfg)) \<longrightarrow>
          selectLoop lib repo tag containers' ([], []) = Inr ([], map Image containers') \<and>
          updateContainer lib cli repo tag w' = (Inr (), w'', [ListCall])) \<and>
         (tag \<noteq> latest \<and>
          updateContainer2 lib cli repo tag w = (Inr (), w', cs) \<and>
          (\<forall>c \<in> set containers'.
             (c \<in> set containers \<and> c \<notin> set (fst (selectLoop2 lib repo tag containers ([], [])))) \<or>
             (\<exists>cfg h n name. CreateCall cfg h n name \<in> set cs \<and> Image c = Config_Image cfg)) \<longrightarrow>
          fst (selectLoop2 lib repo tag containers' ([], [])) = [] \<and>
          updateContainer2 lib cli repo tag w' = (Inr (), w'', [ListCall]))"
proof (intro conjI impI)
  from assms(2) have lib2: "\<And>v. \<not> LessThan lib v v"
    by blast
  from assms(3) have lib3: "\<And>s v. NewVersion lib s = Some v \<Longrightarrow> CHR '':'' \<notin> set s"
    by blast
  note lib = assms(1) lib2 lib3 assms(4,5)
  assume a: "updateContainer lib cli repo tag w = (Inr (), w', cs) \<and>
      selectLoop lib repo tag containers ([], []) = Inr (toUpdate, imgs) \<and>
      (\<forall>c \<in> set containers'.
         (c \<in> set containers \<and> c \<notin> set toUpdate) \<or>
         (\<exists>cfg h n name. CreateCall cfg h n name \<in> set cs \<and> Image c = Config_Image cfg))"
  from second_run_first_version [OF lib conjunct1 [OF a] conjunct1 [OF conjunct2 [OF a]]
      conjunct2 [OF conjunct2 [OF a]]]
  show "selectLoop lib repo tag containers' ([], []) = Inr ([], map Image containers')"
    and "updateContainer lib cli repo tag w' = (Inr (), w'', [ListCall])"
    by simp_all
next
  from assms(2) have lib2: "\<And>v. \<not> LessThan lib v v"
    by blast
  from assms(3) have lib3: "\<And>s v. NewVersion lib s = Some v \<Longrightarrow> CHR '':'' \<notin> set s"
    by blast
  note lib = lib2 lib3 assms(4,5)
  assume b: "tag \<noteq> latest \<and>
      updateContainer2 lib cli repo tag w = (Inr (), w', cs) \<and>
      (\<forall>c \<in> set containers'.
         (c \<in> set containers \<and> c \<notin> set (fst (selectLoop2 lib repo tag containers ([], [])))) \<or>
         (\<exists>cfg h n name. CreateCall cfg h n name \<in> set cs \<and> Image c = Config_Image cfg))"
  from second_run_second_version [OF lib conjunct1 [OF b] conjunct1 [OF conjunct2 [OF b]]
      conjunct2 [OF conjunct2 [OF b]]]
  show "fst (selectLoop2 lib repo tag containers' ([], [])) = []"
    and "updateContainer2 lib cli repo tag w' = (Inr (), w'', [ListCall])"
    by simp_all
qed

text \<open>
  An instance, in both versions: \<^verbatim>\<open>app:1.2.0\<close> beside \<^verbatim>\<open>db:9\<close>, target \<^verbatim>\<open>1.3.0\<close>. The first
  run replaces the container, the second makes the listing call only.
\<close>

theorem second_run_selects_nothing_witness:
  "updateContainer Masterminds docker ''app'' ''1.3.0''
     \<lparr>rt_containers = [running ''c1'' ''/web'' ''app:1.2.0'', running ''c2'' ''/db'' ''db:9''],
      rt_created = 0, pullError = None, exitOnStart = False\<rparr> =
     (Inr (),
      \<lparr>rt_containers = [running ''c2'' ''/db'' ''db:9'', running ''new'' ''/web'' ''app:1.3.0''],
       rt_created = 1, pullError = None, exitOnStart = False\<rparr>,
      [ListCall, PullCall ''docker.io/library/app:1.3.0'',
       InspectCall ''c1'' (snd (running ''c1'' ''/web'' ''app:1.2.0''), None),
       RemoveCall ''c1'' True,
       CreateCall \<lparr>Config_Image = ''app:1.3.0'', Config_rest = ''env''\<rparr> (Some ''host'')
         (Some \<lparr>EndpointsConfig = ''bridge''\<rparr>) ''/web'',
       StartCall ''new'',
       InspectCall ''new'' (snd (running ''new'' ''/web'' ''app:1.3.0''), None),
       ImageRemoveCall ''sha256:app:1.2.0'']) \<and>
   updateContainer Masterminds docker ''app'' ''1.3.0''
     \<lparr>rt_containers = [running ''c2'' ''/db'' ''db:9'', running ''new'' ''/web'' ''app:1.3.0''],
      rt_created = 1, pullError = None, exitOnStart = False\<rparr> =
     (Inr (),
      \<lparr>rt_containers = [running ''c2'' ''/db'' ''db:9'', running ''new'' ''/web'' ''app:1.3.0''],
       rt_created = 1, pullError = None, exitOnStart = False\<rparr>,
      [ListCall]) \<and>
   updateContainer2 Masterminds docker ''app'' ''1.3.0''
     \<lparr>rt_containers = [running ''c2'' ''/db'' ''db:9'', running ''new'' ''/web'' ''app:1.3.0''],
      rt_created = 1, pullError = None, exitOnStart = False\<rparr> =
     (Inr (),
      \<lparr>rt_containers = [running ''c2'' ''/db'' ''db:9'', running ''new'' ''/web'' ''app:1.3.0''],
       rt_created = 1, pullError = None, exitOnStart = False\<rparr>,
      [ListCall])"
proof -
  let ?w = "\<lparr>rt_containers = [running ''c1'' ''/web'' ''app:1.2.0'', running ''c2'' ''/db'' ''db:9''],
      rt_created = 0, pullError = None, exitOnStart = False\<rparr>"
  let ?w' = "\<lparr>rt_containers = [running ''c2'' ''/db'' ''db:9'', running ''new'' ''/web'' ''app:1.3.0''],
       rt_created = 1, pullError = None, exitOnStart = False\<rparr>"
  let ?cs = "[ListCall, PullCall ''docker.io/library/app:1.3.0'',
       InspectCall ''c1'' (snd (running ''c1'' ''/web'' ''app:1.2.0''), None),
       RemoveCall ''c1'' True,
       CreateCall \<lparr>Config_Image = ''app:1.3.0'', Config_rest = ''env''\<rparr> (Some ''host'')
         (Some \<lparr>EndpointsConfig = ''bridge''\<rparr>) ''/web'',
       StartCall ''new'',
       InspectCall ''new'' (snd (running ''new'' ''/web'' ''app:1.3.0''), None),
       ImageRemoveCall ''sha256:app:1.2.0'']"
  let ?c1 = "\<lparr>ID = ''c1'', Image = ''app:1.2.0''\<rparr>"
  let ?c2 = "\<lparr>ID = ''c2'', Image = ''db:9''\<rparr>"
  let ?new = "\<lparr>ID = ''new'', Image = ''app:1.3.0''\<rparr>"
  have run1: "updateContainer Masterminds docker ''app'' ''1.3.0'' ?w = (Inr (), ?w', ?cs)"
    by (simp add: run_eval docker_eval semver_eval Let_def)
  have run2: "updateContainer2 Masterminds docker ''app'' ''1.3.0'' ?w = (Inr (), ?w', ?cs)"
    by (simp add: run_eval docker_eval semver_eval Let_def)
  have list1: "ContainerList docker ?w = (Inr [?c1, ?c2], ?w)"
    by (simp add: docker_eval)
  have list2: "ContainerList docker ?w' = (Inr [?c2, ?new], ?w')"
    by (simp add: docker_eval)
  have sel1: "selectLoop Masterminds ''app'' ''1.3.0'' [?c1, ?c2] ([], []) =
      Inr ([?c1], [''app:1.2.0'', ''db:9''])"
    by (simp add: run_eval semver_eval)
  have sel2: "fst (selectLoop2 Masterminds ''app'' ''1.3.0'' [?c1, ?c2] ([], [])) = [?c1]"
    by (simp add: run_eval semver_eval)
  have created: "\<exists>cfg h n name. CreateCall cfg h n name \<in> set ?cs \<and> Image ?new = Config_Image cfg"
    by (rule exI [of _ "\<lparr>Config_Image = ''app:1.3.0'', Config_rest = ''env''\<rparr>"],
        rule exI [of _ "Some ''host''"], rule exI [of _ "Some \<lparr>EndpointsConfig = ''bridge''\<rparr>"],
        rule exI [of _ "''/web''"]) simp
  have after1: "\<forall>c \<in> set [?c2, ?new].
      (c \<in> set [?c1, ?c2] \<and> c \<notin> set [?c1]) \<or>
      (\<exists>cfg h n name. CreateCall cfg h n name \<in> set ?cs \<and> Image c = Config_Image cfg)"
    using created by simp
  have after2: "\<forall>c \<in> set [?c2, ?new].
      (c \<in> set [?c1, ?c2] \<and>
       c \<notin> set (fst (selectLoop2 Masterminds ''app'' ''1.3.0'' [?c1, ?c2] ([], [])))) \<or>
      (\<exists>cfg h n name. CreateCall cfg h n name \<in> set ?cs \<and> Image c = Config_Image cfg)"
    unfolding sel2 using created by simp
  have tag: "''1.3.0'' \<noteq> latest"
    by (simp add: latest_def)
  from second_run_selects_nothing [where repo = "''app''" and tag = "''1.3.0''" and cs = ?cs
      and toUpdate = "[?c1]" and imgs = "[''app:1.2.0'', ''db:9'']",
      OF Masterminds_latest Masterminds_facts list1 list2]
    run1 run2 sel1 after1 after2 tag
  show ?thesis
    by blast
qed

text \<open>
  The claim as stated fails on the second version with the target \<open>latest\<close>: after a run
  that replaced the container of image \<^verbatim>\<open>db\<close>, the replacement is listed under \<^verbatim>\<open>db\<close>,
  and the next run pulls and replaces it again.
\<close>

theorem second_version_selects_latest_again:
  "updateContainer2 Masterminds docker ''db'' ''latest''
     \<lparr>rt_containers = [running ''c1'' ''/db'' ''db''], rt_created = 0, pullError = None,
      exitOnStart = False\<rparr> =
     (Inr (),
      \<lparr>rt_containers = [running ''new'' ''/db'' ''db''], rt_created = 1, pullError = None,
       exitOnStart = False\<rparr>,
      [ListCall, PullCall ''docker.io/library/db:latest'',
       InspectCall ''c1'' (snd (running ''c1'' ''/db'' ''db''), None),
       RemoveCall ''c1'' True,
       CreateCall \<lparr>Config_Image = ''db'', Config_rest = ''env''\<rparr> (Some ''host'')
         (Some \<lparr>EndpointsConfig = ''bridge''\<rparr>) ''/db'',
       StartCall ''new'',
       InspectCall ''new'' (snd (running ''new'' ''/db'' ''db''), None)]) \<and>
   selectLoop2 Masterminds ''db'' ''latest'' [\<lparr>ID = ''new'', Image = ''db''\<rparr>] ([], []) =
     ([\<lparr>ID = ''new'', Image = ''db''\<rparr>], [''db'']) \<and>
   updateContainer2 Masterminds docker ''db'' ''latest''
     \<lparr>rt_containers = [running ''new'' ''/db'' ''db''], rt_created = 1, pullError = None,
      exitOnStart = False\<rparr> =
     (Inr (),
      \<lparr>rt_containers = [running ''new+'' ''/db'' ''db''], rt_created = 2, pullError = None,
       exitOnStart = False\<rparr>,
      [ListCall, PullCall ''docker.io/library/db:latest'',
       InspectCall ''new'' (snd (running ''new'' ''/db'' ''db''), None),
       RemoveCall ''new'' True,
       CreateCall \<lparr>Config_Image = ''db'', Config_rest = ''env''\<rparr> (Some ''host'')
         (Some \<lparr>EndpointsConfig = ''bridge''\<rparr>) ''/db'',
       StartCall ''new+'',
       InspectCall ''new+'' (snd (running ''new+'' ''/db'' ''db''), None)])"
  by (simp add: run_eval docker_eval latest_def Let_def numeral_2_eq_2)

section \<open>The configuration of the replacement\<close>



section \<open>An empty selection\<close>

text \<open>
  Claim C7. When the request is filled, the listing succeeds and the selection loop
  leaves \<^verbatim>\<open>toUpdate\<close> empty, \<^verbatim>\<open>updateContainer\<close> returns nil, and the listing is the only
  call it has made: no pull, inspect, remove, create or start. In both versions.
\<close>

theorem empty_selection_is_success_without_calls:
  assumes "repo \<noteq> ''''" and "tag \<noteq> ''''"
    and "ContainerList cli w = (Inr containers, w1)"
  shows "(selectLoop lib repo tag containers ([], []) = Inr ([], imgs) \<longrightarrow>
            updateContainer lib cli repo tag w = (Inr (), w1, [ListCall])) \<and>
         (fst (selectLoop2 lib repo tag containers ([], [])) = [] \<longrightarrow>
            updateContainer2 lib cli repo tag w = (Inr (), w1, [ListCall]))"
  using assms
  by (auto simp add: updateContainer_def updateContainer2_def updateListed_def updateListed2_def
      pullAndRecreate_def split: prod.splits)

text \<open>An instance: one container already on \<^verbatim>\<open>app:1.3.0\<close>, target \<^verbatim>\<open>1.3.0\<close>.\<close>

theorem empty_selection_is_success_without_calls_witness:
  "selectLoop Masterminds ''app'' ''1.3.0'' [\<lparr>ID = ''c1'', Image = ''app:1.3.0''\<rparr>] ([], []) =
     Inr ([], [''app:1.3.0'']) \<and>
   fst (selectLoop2 Masterminds ''app'' ''1.3.0'' [\<lparr>ID = ''c1'', Image = ''app:1.3.0''\<rparr>] ([], [])) = [] \<and>
   updateContainer Masterminds docker ''app'' ''1.3.0''
     \<lparr>rt_containers = [running ''c1'' ''/web'' ''app:1.3.0''], rt_created = 0, pullError = None,
      exitOnStart = False\<rparr> =
     (Inr (),
      \<lparr>rt_containers = [running ''c1'' ''/web'' ''app:1.3.0''], rt_created = 0, pullError = None,
       exitOnStart = False\<rparr>,
      [ListCall]) \<and>
   updateContainer2 Masterminds docker ''app'' ''1.3.0''
     \<lparr>rt_containers = [running ''c1'' ''/web'' ''app:1.3.0''], rt_created = 0, pullError = None,
      exitOnStart = False\<rparr> =
     (Inr (),
      \<lparr>rt_containers = [running ''c1'' ''/web'' ''app:1.3.0''], rt_created = 0, pullError = None,
       exitOnStart = False\<rparr>,
      [ListCall])"
proof -
  let ?w = "\<lparr>rt_containers = [running ''c1'' ''/web'' ''app:1.3.0''], rt_created = 0,
      pullError = None, exitOnStart = False\<rparr>"
  have h1: "''app'' \<noteq> ''''" and h2: "''1.3.0'' \<noteq> ''''"
    by simp_all
  have h3: "ContainerList docker ?w = (Inr [\<lparr>ID = ''c1'', Image = ''app:1.3.0''\<rparr>], ?w)"
    by (simp add: docker_eval)
  have s1: "selectLoop Masterminds ''app'' ''1.3.0'' [\<lparr>ID = ''c1'', Image = ''app:1.3.0''\<rparr>] ([], []) =
      Inr ([], [''app:1.3.0''])"
    by (simp add: run_eval semver_eval)
  have s2: "fst (selectLoop2 Masterminds ''app'' ''1.3.0'' [\<lparr>ID = ''c1'', Image = ''app:1.3.0''\<rparr>]
      ([], [])) = []"
    by (simp add: run_eval semver_eval)
  from empty_selection_is_success_without_calls [OF h1 h2 h3, of Masterminds "[''app:1.3.0'']"] s1 s2
  show ?thesis
    by simp
qed

section \<open>Tags that do not parse\<close>

text \<open>
  Claim C8. Let \<open>c\<close> be a listed container whose tag, as the selector reads it from the
  image reference, is not \<open>latest\<close>, so that the selector parses it and the target tag, and
  let one of the two fail to parse. Then the iteration for \<open>c\<close> completes and leaves
  \<^verbatim>\<open>toUpdate\<close> as it was, and the whole of \<^verbatim>\<open>updateContainer\<close> after the listing (the
  result, the state of the runtime and the calls) is what it would be had \<open>c\<close> not been
  listed: the containers before and after \<open>c\<close> are selected or not as without it, and
  no error comes from the failed parse. In both versions.
\<close>

theorem unparseable_tag_skips_one_container:
  assumes "snd (imageRepoTag (Image c)) \<noteq> latest"
    and "NewVersion lib (snd (imageRepoTag (Image c))) = None \<or> NewVersion lib tag = None"
  shows "selectStep lib repo tag c (toUpdate, imgs) = Inr (toUpdate, imgs @ [Image c]) \<and>
         selectStep2 lib repo tag c (toUpdate, imgs) = (toUpdate, imgs @ [Image c]) \<and>
         updateListed lib cli repo tag (xs @ c # ys) s = updateListed lib cli repo tag (xs @ ys) s \<and>
         updateListed2 lib cli repo tag (xs @ c # ys) s = updateListed2 lib cli repo tag (xs @ ys) s"
proof -
  have np: "\<not> panics repo tag c"
    using assms(1) by (auto simp add: panics_def)
  have ns: "\<not> selects lib repo tag c"
    using assms by (auto simp add: selects_def decide_def split: option.splits)
  have ns2: "\<not> selects2 lib repo tag c"
    using assms by (auto simp add: selects2_def decide2_def split: option.splits)
  show ?thesis
    using np ns ns2
    by (simp add: selectStep_eq selectStep2_eq updateListed_def updateListed2_def selectLoop_eq
        selectLoop2_eq)
qed

text \<open>
  An instance: \<^verbatim>\<open>app:nightly\<close> listed between \<^verbatim>\<open>app:1.2.0\<close> and \<^verbatim>\<open>app:1.1.0\<close>, target
  \<^verbatim>\<open>1.3.0\<close>. The other two are selected, with or without it.
\<close>

theorem unparseable_tag_skips_one_container_witness:
  "imageRepoTag ''app:nightly'' = (''app'', ''nightly'') \<and>
   NewVersion Masterminds ''nightly'' = None \<and>
   selectLoop Masterminds ''app'' ''1.3.0''
     [\<lparr>ID = ''c1'', Image = ''app:1.2.0''\<rparr>, \<lparr>ID = ''c2'', Image = ''app:nightly''\<rparr>,
      \<lparr>ID = ''c3'', Image = ''app:1.1.0''\<rparr>] ([], []) =
     Inr ([\<lparr>ID = ''c1'', Image = ''app:1.2.0''\<rparr>, \<lparr>ID = ''c3'', Image = ''app:1.1.0''\<rparr>],
          [''app:1.2.0'', ''app:nightly'', ''app:1.1.0'']) \<and>
   updateListed Masterminds docker ''app'' ''1.3.0''
     [\<lparr>ID = ''c1'', Image = ''app:1.2.0''\<rparr>, \<lparr>ID = ''c2'', Image = ''app:nightly''\<rparr>,
      \<lparr>ID = ''c3'', Image = ''app:1.1.0''\<rparr>]
     (\<lparr>rt_containers = [running ''c1'' ''/a'' ''app:1.2.0'', running ''c2'' ''/b'' ''app:nightly'',
         running ''c3'' ''/c'' ''app:1.1.0''], rt_created = 0, pullError = None, exitOnStart = False\<rparr>,
      [ListCall]) =
   updateListed Masterminds docker ''app'' ''1.3.0''
     [\<lparr>ID = ''c1'', Image = ''app:1.2.0''\<rparr>, \<lparr>ID = ''c3'', Image = ''app:1.1.0''\<rparr>]
     (\<lparr>rt_containers = [running ''c1'' ''/a'' ''app:1.2.0'', running ''c2'' ''/b'' ''app:nightly'',
         running ''c3'' ''/c'' ''app:1.1.0''], rt_created = 0, pullError = None, exitOnStart = False\<rparr>,
      [ListCall]) \<and>
   updateListed2 Masterminds docker ''app'' ''1.3.0''
     [\<lparr>ID = ''c1'', Image = ''app:1.2.0''\<rparr>, \<lparr>ID = ''c2'', Image = ''app:nightly''\<rparr>,
      \<lparr>ID = ''c3'', Image = ''app:1.1.0''\<rparr>]
     (\<lparr>rt_containers = [running ''c1'' ''/a'' ''app:1.2.0'', running ''c2'' ''/b'' ''app:nightly'',
         running ''c3'' ''/c'' ''app:1.1.0''], rt_created = 0, pullError = None, exitOnStart = False\<rparr>,
      [ListCall]) =
   updateListed2 Masterminds docker ''app'' ''1.3.0''
     [\<lparr>ID = ''c1'', Image = ''app:1.2.0''\<rparr>, \<lparr>ID = ''c3'', Image = ''app:1.1.0''\<rparr>]
     (\<lparr>rt_containers = [running ''c1'' ''/a'' ''app:1.2.0'', running ''c2'' ''/b'' ''app:nightly'',
         running ''c3'' ''/c'' ''app:1.1.0''], rt_created = 0, pullError = None, exitOnStart = False\<rparr>,
      [ListCall])"
proof -
  let ?c = "\<lparr>ID = ''c2'', Image = ''app:nightly''\<rparr>"
  have split: "imageRepoTag ''app:nightly'' = (''app'', ''nightly'')"
    by (simp add: imageRepoTag_def)
  have bad: "NewVersion Masterminds ''nightly'' = None"
    by (simp add: semver_eval)
  have h1: "snd (imageRepoTag (Image ?c)) \<noteq> latest"
    by (simp add: imageRepoTag_def latest_def)
  have h2: "NewVersion Masterminds (snd (imageRepoTag (Image ?c))) = None \<or>
      NewVersion Masterminds ''1.3.0'' = None"
    using split bad by simp
  have sel: "selectLoop Masterminds ''app'' ''1.3.0''
     [\<lparr>ID = ''c1'', Image = ''app:1.2.0''\<rparr>, \<lparr>ID = ''c2'', Image = ''app:nightly''\<rparr>,
      \<lparr>ID = ''c3'', Image = ''app:1.1.0''\<rparr>] ([], []) =
     Inr ([\<lparr>ID = ''c1'', Image = ''app:1.2.0''\<rparr>, \<lparr>ID = ''c3'', Image = ''app:1.1.0''\<rparr>],
          [''app:1.2.0'', ''app:nightly'', ''app:1.1.0''])"
    by (simp add: run_eval semver_eval)
  from unparseable_tag_skips_one_container [OF h1 h2, of "''app''" "[]" "[]" docker
      "[\<lparr>ID = ''c1'', Image = ''app:1.2.0''\<rparr>]" "[\<lparr>ID = ''c3'', Image = ''app:1.1.0''\<rparr>]"
      "(\<lparr>rt_containers = [running ''c1'' ''/a'' ''app:1.2.0'', running ''c2'' ''/b'' ''app:nightly'',
         running ''c3'' ''/c'' ''app:1.1.0''], rt_created = 0, pullError = None, exitOnStart = False\<rparr>,
        [ListCall])"]
    split bad sel
  show ?thesis
    by simp
qed

text \<open>
  On a reference with one \<^verbatim>\<open>:\<close> the tag the selector reads is the tag after the last
  \<^verbatim>\<open>:\<close>, so the same holds with the tag read that way.
\<close>

lemma unparseable_tag_one_colon:
  assumes "Image c = r @ '':'' @ t" and "CHR '':'' \<notin> set r" and "CHR '':'' \<notin> set t"
    and "t \<noteq> ''''" and "t \<noteq> latest"
    and "NewVersion lib t = None \<or> NewVersion lib tag = None"
  shows "spec_splitLastColon (Image c) = (r, t)"
    and "updateListed lib cli repo tag (xs @ c # ys) s = updateListed lib cli repo tag (xs @ ys) s"
    and "updateListed2 lib cli repo tag (xs @ c # ys) s = updateListed2 lib cli repo tag (xs @ ys) s"
proof -
  have split: "imageRepoTag (Image c) = (r, t)"
    using assms(1) imageRepoTag_repo_tag [OF assms(2-4)] by simp
  show "spec_splitLastColon (Image c) = (r, t)"
    using assms(1) spec_splitLastColon_repo_tag [OF assms(3), of r] by simp
  have np: "\<not> panics repo tag c"
    using split assms(5) by (auto simp add: panics_def)
  have ns: "\<not> selects lib repo tag c"
    using split assms(5,6) by (auto simp add: selects_def decide_def split: option.splits)
  have ns2: "\<not> selects2 lib repo tag c"
    using split assms(5,6) by (auto simp add: selects2_def decide2_def split: option.splits)
  show "updateListed lib cli repo tag (xs @ c # ys) s = updateListed lib cli repo tag (xs @ ys) s"
    using np ns by (simp add: updateListed_def selectLoop_eq)
  show "updateListed2 lib cli repo tag (xs @ c # ys) s = updateListed2 lib cli repo tag (xs @ ys) s"
    using ns2 by (simp add: updateListed2_def selectLoop2_eq)
qed

section \<open>A failed pull\<close>



section \<open>The inspect after the start\<close>



end
